theory Spec2Isabelle
  imports Complex_Main
begin

section \<open>Geometry kernel of the sensor server\<close>

text \<open>
  The server computes with Python floats. They are modelled by the real numbers: the
  comparisons, the case analysis and the order in which edges and walls are visited are
  those of the source; rounding is not modelled.
\<close>

record wall =
  wall_x :: real
  wall_y :: real
  wall_width :: real
  wall_height :: real

definition mk_wall :: "real \<Rightarrow> real \<Rightarrow> real \<Rightarrow> real \<Rightarrow> wall" where
  "mk_wall a b w h = \<lparr>wall_x = a, wall_y = b, wall_width = w, wall_height = h\<rparr>"

text \<open>\<^verbatim>\<open>line_intersects_line\<close> of the server: the parametric test, bounds included.\<close>

definition line_intersects_line ::
  "real \<Rightarrow> real \<Rightarrow> real \<Rightarrow> real \<Rightarrow> real \<Rightarrow> real \<Rightarrow> real \<Rightarrow> real \<Rightarrow> bool" where
  "line_intersects_line x1 y1 x2 y2 x3 y3 x4 y4 =
     (let den = (y4 - y3) * (x2 - x1) - (x4 - x3) * (y2 - y1) in
      if den = 0 then False
      else
        let ua = ((x4 - x3) * (y1 - y3) - (y4 - y3) * (x1 - x3)) / den;
            ub = ((x2 - x1) * (y1 - y3) - (y2 - y1) * (x1 - x3)) / den
        in 0 \<le> ua \<and> ua \<le> 1 \<and> 0 \<le> ub \<and> ub \<le> 1)"

definition get_intersection_point ::
  "real \<Rightarrow> real \<Rightarrow> real \<Rightarrow> real \<Rightarrow> real \<Rightarrow> real \<Rightarrow> real \<Rightarrow> real \<Rightarrow> (real \<times> real) option" where
  "get_intersection_point x1 y1 x2 y2 x3 y3 x4 y4 =
     (let den = (y4 - y3) * (x2 - x1) - (x4 - x3) * (y2 - y1) in
      if den = 0 then None
      else
        let ua = ((x4 - x3) * (y1 - y3) - (y4 - y3) * (x1 - x3)) / den
        in Some (x1 + ua * (x2 - x1), y1 + ua * (y2 - y1)))"

text \<open>The four edges of a rectangle in the order the source lists them: top, right, bottom, left.\<close>

definition rect_edges :: "wall \<Rightarrow> (real \<times> real \<times> real \<times> real) list" where
  "rect_edges rect =
     (let left = wall_x rect; top = wall_y rect;
          right = left + wall_width rect; bottom = top + wall_height rect
      in [(left, top, right, top), (right, top, right, bottom),
          (right, bottom, left, bottom), (left, bottom, left, top)])"

text \<open>The loop over the edges: the first edge that intersects decides, the others are not looked at.\<close>

fun first_edge_hit ::
  "real \<Rightarrow> real \<Rightarrow> real \<Rightarrow> real \<Rightarrow> (real \<times> real \<times> real \<times> real) list \<Rightarrow> (real \<times> real) option" where
  "first_edge_hit x1 y1 x2 y2 [] = None"
| "first_edge_hit x1 y1 x2 y2 ((x3, y3, x4, y4) # es) =
     (if line_intersects_line x1 y1 x2 y2 x3 y3 x4 y4
      then get_intersection_point x1 y1 x2 y2 x3 y3 x4 y4
      else first_edge_hit x1 y1 x2 y2 es)"

definition line_intersects_rect ::
  "real \<Rightarrow> real \<Rightarrow> real \<Rightarrow> real \<Rightarrow> wall \<Rightarrow> (real \<times> real) option" where
  "line_intersects_rect x1 y1 x2 y2 rect = first_edge_hit x1 y1 x2 y2 (rect_edges rect)"

subsection \<open>Laser\<close>

definition radians :: "real \<Rightarrow> real" where
  "radians deg = deg * pi / 180"

text \<open>
  The loop of \<^verbatim>\<open>check_laser\<close> over the walls, with its two variables
  \<^verbatim>\<open>closest_hit\<close> and \<^verbatim>\<open>min_distance\<close> as the accumulator. A returned point is a
  non-empty tuple, hence true in the test \<^verbatim>\<open>if intersection\<close>.
\<close>

fun laser_loop ::
  "real \<Rightarrow> real \<Rightarrow> real \<Rightarrow> real \<Rightarrow> wall list \<Rightarrow> (real \<times> real) option \<times> real
     \<Rightarrow> (real \<times> real) option \<times> real" where
  "laser_loop x y end_x end_y [] acc = acc"
| "laser_loop x y end_x end_y (w # ws) (closest_hit, min_distance) =
     (case line_intersects_rect x y end_x end_y w of
        None \<Rightarrow> laser_loop x y end_x end_y ws (closest_hit, min_distance)
      | Some (hit_x, hit_y) \<Rightarrow>
          (let distance = sqrt ((hit_x - x)\<^sup>2 + (hit_y - y)\<^sup>2) in
           if distance < min_distance
           then laser_loop x y end_x end_y ws (Some (hit_x, hit_y), distance)
           else laser_loop x y end_x end_y ws (closest_hit, min_distance)))"

definition check_laser :: "real \<Rightarrow> real \<Rightarrow> real \<Rightarrow> wall list \<Rightarrow> bool \<times> real option" where
  "check_laser x y angle walls =
     (let max_distance = 50;
          rad = radians angle;
          end_x = x + cos rad * max_distance;
          end_y = y + sin rad * max_distance;
          (closest_hit, min_distance) = laser_loop x y end_x end_y walls (None, max_distance)
      in (closest_hit \<noteq> None, if closest_hit \<noteq> None then Some min_distance else None))"

text \<open>The labyrinth \<^verbatim>\<open>walls_data\<close> of the server.\<close>

definition walls_data :: "wall list" where
  "walls_data =
     [mk_wall 50 50 1900 20, mk_wall 50 50 20 1900, mk_wall 50 1930 1900 20, mk_wall 1930 50 20 1900,
      mk_wall 200 200 20 400, mk_wall 200 600 400 20, mk_wall 600 200 20 400, mk_wall 600 600 400 20,
      mk_wall 1000 200 20 800, mk_wall 200 1000 800 20, mk_wall 1200 200 20 800, mk_wall 1200 1000 400 20,
      mk_wall 1600 200 20 800, mk_wall 200 1400 400 20, mk_wall 600 1400 20 400, mk_wall 600 1800 400 20,
      mk_wall 1000 1400 20 400, mk_wall 1200 1400 400 20, mk_wall 1600 1400 20 400,
      mk_wall 300 300 100 20, mk_wall 1500 1500 100 20, mk_wall 800 800 20 100]"

subsection \<open>Radar visibility\<close>

text \<open>
  \<^verbatim>\<open>is_visible\<close>: the loop over the walls returns False at the first wall that is not
  skipped by the bounding-box test and that the segment intersects.
\<close>

definition wall_skipped :: "real \<Rightarrow> real \<Rightarrow> real \<Rightarrow> real \<Rightarrow> wall \<Rightarrow> bool" where
  "wall_skipped from_x from_y to_x to_y w =
     (let wall_center_x = wall_x w + wall_width w / 2;
          wall_center_y = wall_y w + wall_height w / 2;
          min_x = min from_x to_x - 20;
          max_x = max from_x to_x + 20;
          min_y = min from_y to_y - 20;
          max_y = max from_y to_y + 20
      in (wall_center_x < min_x \<or> wall_center_x > max_x) \<and>
         (wall_center_y < min_y \<or> wall_center_y > max_y))"

fun visible_loop :: "real \<Rightarrow> real \<Rightarrow> real \<Rightarrow> real \<Rightarrow> wall list \<Rightarrow> bool" where
  "visible_loop from_x from_y to_x to_y [] = True"
| "visible_loop from_x from_y to_x to_y (w # ws) =
     (if wall_skipped from_x from_y to_x to_y w then visible_loop from_x from_y to_x to_y ws
      else if line_intersects_rect from_x from_y to_x to_y w \<noteq> None then False
      else visible_loop from_x from_y to_x to_y ws)"

definition is_visible :: "real \<Rightarrow> real \<Rightarrow> real \<Rightarrow> real \<Rightarrow> wall list \<Rightarrow> bool" where
  "is_visible from_x from_y to_x to_y walls =
     (let distance = sqrt ((to_x - from_x)\<^sup>2 + (to_y - from_y)\<^sup>2) in
      if distance < 30 then True
      else visible_loop from_x from_y to_x to_y walls)"

text \<open>
  The reading of the specification: below 30 units the candidate is visible, otherwise
  it is visible exactly when the intersection test finds no wall on the segment. No wall
  is skipped here.
\<close>

definition is_visible_spec :: "real \<Rightarrow> real \<Rightarrow> real \<Rightarrow> real \<Rightarrow> wall list \<Rightarrow> bool" where
  "is_visible_spec from_x from_y to_x to_y walls =
     (sqrt ((to_x - from_x)\<^sup>2 + (to_y - from_y)\<^sup>2) < 30 \<or>
      list_all (\<lambda>w. line_intersects_rect from_x from_y to_x to_y w = None) walls)"

text \<open>A wall is thin when one of its sides is at most 40 units long.\<close>

definition thin_wall :: "wall \<Rightarrow> bool" where
  "thin_wall w = (\<bar>wall_width w\<bar> \<le> 40 \<or> \<bar>wall_height w\<bar> \<le> 40)"

text \<open>
  The point \<open>p\<close> lies in the bounding box of the segment from \<open>(x1, y1)\<close> to
  \<open>(x2, y2)\<close> and in the bounding box of the edge \<open>e\<close>.
\<close>

definition in_boxes ::
  "real \<Rightarrow> real \<Rightarrow> real \<Rightarrow> real \<Rightarrow> real \<times> real \<times> real \<times> real \<Rightarrow> real \<times> real \<Rightarrow> bool" where
  "in_boxes x1 y1 x2 y2 e p =
     (case e of (x3, y3, x4, y4) \<Rightarrow> case p of (px, py) \<Rightarrow>
        min x1 x2 \<le> px \<and> px \<le> max x1 x2 \<and> min y1 y2 \<le> py \<and> py \<le> max y1 y2 \<and>
        min x3 x4 \<le> px \<and> px \<le> max x3 x4 \<and> min y3 y4 \<le> py \<and> py \<le> max y3 y4)"

subsection \<open>The segment test of the agent\<close>





subsection \<open>The state cache of the server\<close>

record ship_entry =
  ship_entry_x :: real
  ship_entry_y :: real
  ship_entry_angle :: real

record bullet_entry =
  bullet_entry_x :: real
  bullet_entry_y :: real
  bullet_entry_angle :: real
  bullet_entry_lifespan :: int
  bullet_entry_owner :: int

record coin_entry =
  coin_entry_x :: real
  coin_entry_y :: real

text \<open>The dictionary \<^verbatim>\<open>game_state\<close>, with its four keys.\<close>

record game_state =
  gs_ships :: "ship_entry list"
  gs_bullets :: "bullet_entry list"
  gs_coins :: "coin_entry list"
  gs_score :: "int list"

text \<open>The value the module binds to \<^verbatim>\<open>game_state\<close> when it is loaded.\<close>

definition game_state_init :: game_state where
  "game_state_init = \<lparr>gs_ships = [], gs_bullets = [], gs_coins = [], gs_score = []\<rparr>"

text \<open>
  The two endpoints on the cache take the global and return the response with the new
  global: \<^verbatim>\<open>update_state\<close> replaces it by what was posted, \<^verbatim>\<open>get_game_state\<close>
  returns it unchanged.
\<close>

definition update_state :: "game_state \<Rightarrow> game_state \<Rightarrow> string \<times> game_state" where
  "update_state cache state = (''success'', state)"

definition get_game_state :: "game_state \<Rightarrow> game_state \<times> game_state" where
  "get_game_state cache = (cache, cache)"

text \<open>The default, in the words of the specification.\<close>

definition game_state_default_spec :: game_state where
  "game_state_default_spec = \<lparr>gs_ships = [], gs_bullets = [], gs_coins = [], gs_score = [0, 0]\<rparr>"

section \<open>The agent\<close>

text \<open>
  Exceptions are values: a function that can raise returns \<open>py_error + 'a\<close>, and a
  method that changes the agent before it raises returns the changed agent beside the error.
\<close>

datatype py_error = TypeError | KeyError | IndexError

record command =
  cmd_rotate :: real
  cmd_thrust :: real
  cmd_shoot :: bool

definition neutral_command :: command where
  "neutral_command = \<lparr>cmd_rotate = 0, cmd_thrust = 0, cmd_shoot = False\<rparr>"

record radar_object =
  obj_type :: string
  obj_distance :: real
  obj_angle :: real

text \<open>
  The sensor reading the agent is given. It is a dictionary whose keys may be absent
  (\<open>None\<close> below); the value of \<^verbatim>\<open>laser_distance\<close> may be Python's None
  (\<open>Some None\<close>). The field \<open>sd_position\<close> is the attribute \<^verbatim>\<open>position\<close> that
  \<^verbatim>\<open>hasattr\<close> looks for: a plain dictionary has no such attribute.
\<close>

record sensor_data =
  sd_position :: "(real \<times> real) option"
  sd_laser_hit :: "bool option"
  sd_laser_distance :: "real option option"
  sd_radar_objects :: "radar_object list option"

text \<open>A dictionary is false in a condition exactly when it has no key.\<close>

definition sensor_empty :: "sensor_data \<Rightarrow> bool" where
  "sensor_empty sensor_data =
     (sd_laser_hit sensor_data = None \<and> sd_laser_distance sensor_data = None \<and>
      sd_radar_objects sensor_data = None)"

record stuck_detection =
  position :: "(real \<times> real) option"
  last_position :: "(real \<times> real) option"
  check_time :: real
  last_check_time :: real
  is_stuck :: bool
  stuck_count :: int
  escape_direction :: int

text \<open>
  \<^verbatim>\<open>target_memory\<close>: the keys \<^verbatim>\<open>distance\<close> and \<^verbatim>\<open>angle\<close> exist only once a
  target was seen.
\<close>

record target_memory =
  tm_type :: "string option"
  tm_distance :: "real option"
  tm_angle :: "real option"
  tm_last_seen :: real

record agent =
  ship_index :: int
  last_direction_change :: real
  current_rotation :: real
  last_actions :: command
  target_memory :: target_memory
  stuck_detection :: stuck_detection

text \<open>
  What a call reads from outside: the clock (once in \<^verbatim>\<open>decide_from_sensors\<close> or
  \<^verbatim>\<open>decide\<close>'s callee, once more in \<^verbatim>\<open>_update_stuck_detection\<close>) and the random
  numbers each branch may draw.
\<close>

record env =
  time_decide :: real
  time_update :: real
  rnd_rotate :: real
  rnd_thrust :: real
  rnd_shoot :: real
  rnd_choice :: int
  rnd_explore :: real
  rnd_legacy :: real
  rnd_legacy_rotate :: real
  rnd_legacy_thrust :: real
  rnd_legacy_shoot :: real

text \<open>\<^verbatim>\<open>DummyAgent.__init__\<close>; \<open>t0\<close> is the clock at construction.\<close>

definition init_agent :: "int \<Rightarrow> real \<Rightarrow> agent" where
  "init_agent idx t0 =
     \<lparr>ship_index = idx,
      last_direction_change = t0,
      current_rotation = 0,
      last_actions = neutral_command,
      target_memory = \<lparr>tm_type = None, tm_distance = None, tm_angle = None, tm_last_seen = 0\<rparr>,
      stuck_detection =
        \<lparr>position = None, last_position = None, check_time = t0, last_check_time = t0,
         is_stuck = False, stuck_count = 0, escape_direction = 1\<rparr>\<rparr>"

subsection \<open>Stuck detection\<close>

text \<open>
  The comparison of one sample \<open>(cx, cy)\<close> with the stored position \<open>(px, py)\<close>:
  the counter, the flag and the two stored positions.
\<close>

definition stuck_compare :: "real \<times> real \<Rightarrow> real \<times> real \<Rightarrow> stuck_detection \<Rightarrow> stuck_detection" where
  "stuck_compare current_pos pos sd =
     (let dx = fst current_pos - fst pos;
          dy = snd current_pos - snd pos;
          distance_moved = sqrt (dx * dx + dy * dy);
          sd1 = (if distance_moved < 5
                 then (let sd2 = sd\<lparr>stuck_count := stuck_count sd + 1\<rparr>
                       in if stuck_count sd2 \<ge> 3 then sd2\<lparr>is_stuck := True\<rparr> else sd2)
                 else sd\<lparr>is_stuck := False, stuck_count := max 0 (stuck_count sd - 1)\<rparr>)
      in sd1\<lparr>last_position := position sd1, position := Some current_pos\<rparr>)"

text \<open>
  \<^verbatim>\<open>_update_stuck_detection\<close>. The first sample only initialises and returns; a later
  sample is compared; without a sample only the timer is rolled forward.
\<close>

definition update_stuck_detection :: "real \<Rightarrow> sensor_data \<Rightarrow> stuck_detection \<Rightarrow> stuck_detection" where
  "update_stuck_detection current_time sensor_data sd =
     (case sd_position sensor_data of
        None \<Rightarrow> sd\<lparr>last_check_time := check_time sd, check_time := current_time\<rparr>
      | Some current_pos \<Rightarrow>
          (case position sd of
             None \<Rightarrow>
               sd\<lparr>position := Some current_pos, last_position := Some current_pos,
                  check_time := current_time, last_check_time := current_time\<rparr>
           | Some pos \<Rightarrow>
               (let sd1 = stuck_compare current_pos pos sd
                in sd1\<lparr>last_check_time := check_time sd1, check_time := current_time\<rparr>)))"

text \<open>Feeding a sequence of samples, each with the clock reading of its update.\<close>

fun feed_samples :: "stuck_detection \<Rightarrow> (real \<times> sensor_data) list \<Rightarrow> stuck_detection" where
  "feed_samples sd [] = sd"
| "feed_samples sd ((t, s) # rest) = feed_samples (update_stuck_detection t s sd) rest"

text \<open>
  The distance between a sample and the sample before it, as the update computes it.
\<close>

definition distance_moved :: "real \<times> real \<Rightarrow> real \<times> real \<Rightarrow> real" where
  "distance_moved c p = sqrt ((fst c - fst p) * (fst c - fst p) + (snd c - snd p) * (snd c - snd p))"

subsection \<open>The decision from sensor data\<close>

definition calculate_turn_rate :: "real \<Rightarrow> bool \<Rightarrow> real" where
  "calculate_turn_rate angle aggressive =
     (if \<not> aggressive then
        (if \<bar>angle\<bar> < 20 then angle * 0.15
         else if \<bar>angle\<bar> < 90 then 3 * (if angle > 0 then 1 else -1)
         else 4 * (if angle > 0 then 1 else -1))
      else
        (if \<bar>angle\<bar> < 20 then angle * 0.2
         else if \<bar>angle\<bar> < 90 then 5 * (if angle > 0 then 1 else -1)
         else 8 * (if angle > 0 then 1 else -1)))"

definition random_action :: "env \<Rightarrow> command" where
  "random_action e =
     \<lparr>cmd_rotate = rnd_rotate e, cmd_thrust = rnd_thrust e, cmd_shoot = (rnd_shoot e < 0.05)\<rparr>"

text \<open>The periodic stuck update at the head of the method.\<close>

definition stuck_phase :: "env \<Rightarrow> sensor_data \<Rightarrow> agent \<Rightarrow> agent" where
  "stuck_phase e sensor_data a =
     (if time_decide e - check_time (stuck_detection a) > 1.0
      then a\<lparr>stuck_detection := update_stuck_detection (time_update e) sensor_data (stuck_detection a)\<rparr>
      else a)"

text \<open>The escape manoeuvre, taken when the flag is set.\<close>

definition stuck_escape :: "agent \<Rightarrow> command \<times> agent" where
  "stuck_escape a =
     (let sd = (stuck_detection a)\<lparr>escape_direction := - escape_direction (stuck_detection a)\<rparr>;
          turn_angle = 45 * real_of_int (escape_direction sd);
          a1 = a\<lparr>stuck_detection := sd\<rparr>
      in if stuck_count sd mod 2 = 0
         then (\<lparr>cmd_rotate = turn_angle, cmd_thrust = -0.8, cmd_shoot = False\<rparr>, a1)
         else (\<lparr>cmd_rotate = turn_angle, cmd_thrust = 0.2, cmd_shoot = False\<rparr>, a1))"

text \<open>
  \<^verbatim>\<open>sensor_data.get("laser_hit", False)\<close> and \<^verbatim>\<open>sensor_data.get("laser_distance", 100)\<close>;
  the second may return Python's None (\<open>None\<close> here), whose comparison with a number
  raises.
\<close>

definition get_laser_hit :: "sensor_data \<Rightarrow> bool" where
  "get_laser_hit sensor_data = (case sd_laser_hit sensor_data of None \<Rightarrow> False | Some b \<Rightarrow> b)"

definition get_laser_distance :: "sensor_data \<Rightarrow> real option" where
  "get_laser_distance sensor_data =
     (case sd_laser_distance sensor_data of None \<Rightarrow> Some 100 | Some v \<Rightarrow> v)"

text \<open>
  The two wall rules. The result is \<open>None\<close> when neither returns, so that the method goes
  on to the radar. The second rule is only reached with a distance of 50 or more.
\<close>

definition wall_rules :: "env \<Rightarrow> sensor_data \<Rightarrow> agent \<Rightarrow> (py_error + command) option" where
  "wall_rules e sensor_data a =
     (if get_laser_hit sensor_data then
        (case get_laser_distance sensor_data of
           None \<Rightarrow> Some (Inl TypeError)
         | Some distance \<Rightarrow>
             if distance < 50 then
               (let turn_direction = (if cmd_rotate (last_actions a) \<ge> 0 then 1 else -1);
                    turn_amount = (if distance < 20 then 15 else 8);
                    turn_angle = turn_amount * turn_direction;
                    thrust_amount = (if distance < 20 then 0 else 0.1)
                in Some (Inr \<lparr>cmd_rotate = turn_angle, cmd_thrust = thrust_amount, cmd_shoot = False\<rparr>))
             else if distance < 30 then
               Some (Inr \<lparr>cmd_rotate = 5 * real_of_int (rnd_choice e), cmd_thrust = 0, cmd_shoot = False\<rparr>)
             else None)
      else None)"

text \<open>The enemy branch: memory and command for the nearest enemy.\<close>

definition engage_enemy :: "env \<Rightarrow> radar_object \<Rightarrow> agent \<Rightarrow> command \<times> agent" where
  "engage_enemy e nearest_enemy a =
     (let a1 = a\<lparr>target_memory :=
                  \<lparr>tm_type = Some ''enemy'', tm_distance = Some (obj_distance nearest_enemy),
                   tm_angle = Some (obj_angle nearest_enemy), tm_last_seen = time_decide e\<rparr>\<rparr>
      in if obj_distance nearest_enemy < 100 then
           (if obj_distance nearest_enemy < 50 then
              (\<lparr>cmd_rotate = calculate_turn_rate (obj_angle nearest_enemy) True,
                cmd_thrust = -0.5,
                cmd_shoot = (\<bar>obj_angle nearest_enemy\<bar> < 15)\<rparr>, a1)
            else
              (let circle_direction = (if obj_angle nearest_enemy > 0 then 1 else -1)
               in (\<lparr>cmd_rotate = 3 * circle_direction,
                    cmd_thrust = 0.3,
                    cmd_shoot = (\<bar>obj_angle nearest_enemy\<bar> < 10)\<rparr>, a1)))
         else
           (\<lparr>cmd_rotate = calculate_turn_rate (obj_angle nearest_enemy) False,
             cmd_thrust = (if \<bar>obj_angle nearest_enemy\<bar> < 30 then 0.5 else 0.2),
             cmd_shoot = (\<bar>obj_angle nearest_enemy\<bar> < 5 \<and> obj_distance nearest_enemy < 300)\<rparr>, a1))"

text \<open>The coin branch: memory and command for the nearest coin.\<close>

definition collect_coin :: "env \<Rightarrow> radar_object \<Rightarrow> agent \<Rightarrow> command \<times> agent" where
  "collect_coin e nearest_coin a =
     (let a1 = a\<lparr>target_memory :=
                  \<lparr>tm_type = Some ''coin'', tm_distance = Some (obj_distance nearest_coin),
                   tm_angle = Some (obj_angle nearest_coin), tm_last_seen = time_decide e\<rparr>\<rparr>;
          turn_rate = calculate_turn_rate (obj_angle nearest_coin) False;
          thrust_value = (if \<bar>obj_angle nearest_coin\<bar> < 30 then 1.0 else 0.5)
      in (\<lparr>cmd_rotate = turn_rate, cmd_thrust = thrust_value, cmd_shoot = False\<rparr>, a1))"

text \<open>Without a target in sight: follow a recent memory, or explore.\<close>

definition follow_or_explore :: "env \<Rightarrow> agent \<Rightarrow> (py_error + command) \<times> agent" where
  "follow_or_explore e a =
     (if tm_type (target_memory a) \<noteq> None \<and> time_decide e - tm_last_seen (target_memory a) < 2.0 then
        (case tm_angle (target_memory a) of
           None \<Rightarrow> (Inl KeyError, a)
         | Some angle \<Rightarrow>
             (Inr \<lparr>cmd_rotate = calculate_turn_rate angle False, cmd_thrust = 0.7, cmd_shoot = False\<rparr>, a))
      else
        (let a1 = (if time_decide e - last_direction_change a > 3.0
                   then a\<lparr>current_rotation := rnd_explore e, last_direction_change := time_decide e\<rparr>
                   else a)
         in (Inr \<lparr>cmd_rotate = current_rotation a1, cmd_thrust = 0.5, cmd_shoot = False\<rparr>, a1)))"

text \<open>The radar objects of the two kinds, in the order of the list.\<close>

definition radar_list :: "sensor_data \<Rightarrow> radar_object list" where
  "radar_list sensor_data = (case sd_radar_objects sensor_data of None \<Rightarrow> [] | Some objs \<Rightarrow> objs)"

definition enemies_of :: "sensor_data \<Rightarrow> radar_object list" where
  "enemies_of sensor_data = filter (\<lambda>obj. obj_type obj = ''enemy'') (radar_list sensor_data)"

definition coins_of :: "sensor_data \<Rightarrow> radar_object list" where
  "coins_of sensor_data =
     filter (\<lambda>obj. obj_type obj \<noteq> ''enemy'' \<and> obj_type obj = ''coin'') (radar_list sensor_data)"

text \<open>The target rules: enemies first, then coins, then memory and exploration.\<close>

definition target_rules :: "env \<Rightarrow> sensor_data \<Rightarrow> agent \<Rightarrow> (py_error + command) \<times> agent" where
  "target_rules e sensor_data a =
     (let enemies = enemies_of sensor_data;
          coins = coins_of sensor_data
      in if enemies \<noteq> [] then
           (let nearest_enemy = hd (sort_key obj_distance enemies);
                (c, a1) = engage_enemy e nearest_enemy a
            in (Inr c, a1))
         else if coins \<noteq> [] then
           (let nearest_coin = hd (sort_key obj_distance coins);
                (c, a1) = collect_coin e nearest_coin a
            in (Inr c, a1))
         else follow_or_explore e a)"

text \<open>\<^verbatim>\<open>decide_from_sensors\<close>: the rules in their order, each returning when it fires.\<close>

definition decide_from_sensors :: "env \<Rightarrow> sensor_data \<Rightarrow> agent \<Rightarrow> (py_error + command) \<times> agent" where
  "decide_from_sensors e sensor_data a =
     (if sensor_empty sensor_data then (Inr (random_action e), a)
      else
        (let a1 = stuck_phase e sensor_data a in
         if is_stuck (stuck_detection a1) then
           (let (c, a2) = stuck_escape a1 in (Inr c, a2))
         else
           (case wall_rules e sensor_data a1 of
              Some r \<Rightarrow> (r, a1)
            | None \<Rightarrow> target_rules e sensor_data a1)))"

text \<open>A run of calls, the agent being kept between them as the server keeps it.\<close>

fun run_decide :: "agent \<Rightarrow> (env \<times> sensor_data) list \<Rightarrow> agent" where
  "run_decide a [] = a"
| "run_decide a ((e, s) # rest) = run_decide (snd (decide_from_sensors e s a)) rest"

text \<open>A plain dictionary: no attribute \<^verbatim>\<open>position\<close>.\<close>

definition plain_dict :: "sensor_data \<Rightarrow> bool" where
  "plain_dict sensor_data = (sd_position sensor_data = None)"

subsection \<open>The entry points and their exception handlers\<close>

text \<open>
  The dictionary given to \<^verbatim>\<open>DummyAgent.decide\<close>: the sensor keys, and the key
  \<^verbatim>\<open>ships\<close> of the engine's state, each possibly absent.
\<close>

record game_dict =
  gd_sensor :: sensor_data
  gd_ships :: "ship_entry list option"

text \<open>
  The subscript \<^verbatim>\<open>ships[k]\<close> of a Python list: from the front for \<open>k\<close> from 0,
  from the back for a negative \<open>k\<close>, and an IndexError outside the list.
\<close>

definition py_index :: "'a list \<Rightarrow> int \<Rightarrow> py_error + 'a" where
  "py_index xs k =
     (if 0 \<le> k
      then (if k < int (length xs) then Inr (xs ! nat k) else Inl IndexError)
      else (if - int (length xs) \<le> k then Inr (xs ! nat (int (length xs) + k)) else Inl IndexError))"

definition legacy_decide :: "env \<Rightarrow> ship_entry list \<Rightarrow> wall list \<Rightarrow> agent \<Rightarrow> py_error + command" where
  "legacy_decide e ships walls a =
     (case py_index ships (ship_index a) of
        Inl err \<Rightarrow> Inl err
      | Inr my_ship \<Rightarrow>
          if rnd_legacy e < 0.05
          then Inr \<lparr>cmd_rotate = rnd_legacy_rotate e, cmd_thrust = rnd_legacy_thrust e,
                    cmd_shoot = (rnd_legacy_shoot e < 0.1)\<rparr>
          else Inr \<lparr>cmd_rotate = 0.5, cmd_thrust = 0.5, cmd_shoot = False\<rparr>)"

text \<open>
  The body of the \<^verbatim>\<open>try\<close> in \<^verbatim>\<open>DummyAgent.decide\<close>. The argument \<open>None\<close> is
  Python's None, on which the test \<^verbatim>\<open>"laser_hit" in game_state\<close> raises.
\<close>

definition decide_body :: "env \<Rightarrow> game_dict option \<Rightarrow> wall list \<Rightarrow> agent \<Rightarrow> (py_error + command) \<times> agent" where
  "decide_body e game_state walls a =
     (case game_state of
        None \<Rightarrow> (Inl TypeError, a)
      | Some gd \<Rightarrow>
          if sd_laser_hit (gd_sensor gd) \<noteq> None then decide_from_sensors e (gd_sensor gd) a
          else
            (case gd_ships gd of
               None \<Rightarrow> (Inl KeyError, a)
             | Some ships \<Rightarrow>
                 if ship_index a < int (length ships) then (legacy_decide e ships walls a, a)
                 else (Inr neutral_command, a)))"

text \<open>\<^verbatim>\<open>DummyAgent.decide\<close>: the body, and the handler of \<^verbatim>\<open>except Exception\<close>.\<close>

definition decide :: "env \<Rightarrow> game_dict option \<Rightarrow> wall list \<Rightarrow> agent \<Rightarrow> (py_error + command) \<times> agent" where
  "decide e game_state walls a =
     (case decide_body e game_state walls a of
        (Inl err, a1) \<Rightarrow> (Inr neutral_command, a1)
      | (Inr c, a1) \<Rightarrow> (Inr c, a1))"

text \<open>
  The request of the endpoint \<^verbatim>\<open>/decide/\<close>: the key \<^verbatim>\<open>ship_id\<close> and the list
  \<^verbatim>\<open>ships\<close>, whose entries may lack a key.
\<close>

record ship_fields =
  sf_x :: "real option"
  sf_y :: "real option"
  sf_angle :: "real option"

record game_data =
  gdata_ship_id :: "int option"
  gdata_ships :: "ship_fields list option"

record sensor_request =
  req_ship_id :: int
  req_position :: "real \<times> real"
  req_angle :: real

definition dict_get :: "'a option \<Rightarrow> py_error + 'a" where
  "dict_get v = (case v of None \<Rightarrow> Inl KeyError | Some x \<Rightarrow> Inr x)"

text \<open>
  The body of the \<^verbatim>\<open>try\<close> in the endpoint. The endpoint \<^verbatim>\<open>sense\<close> catches its own
  exceptions and always returns a dictionary; it is the parameter \<open>sense\<close> here.
\<close>

definition decide_endpoint_body ::
  "(sensor_request \<Rightarrow> sensor_data) \<Rightarrow> env \<Rightarrow> game_data \<Rightarrow> agent \<Rightarrow> (py_error + command) \<times> agent" where
  "decide_endpoint_body sense e game_data a =
     (let ship_id = (case gdata_ship_id game_data of None \<Rightarrow> 0 | Some i \<Rightarrow> i) in
      case dict_get (gdata_ships game_data) of
        Inl err \<Rightarrow> (Inl err, a)
      | Inr ships \<Rightarrow>
          (case py_index ships ship_id of
             Inl err \<Rightarrow> (Inl err, a)
           | Inr ship \<Rightarrow>
               (case (dict_get (sf_x ship), dict_get (sf_y ship), dict_get (sf_angle ship)) of
                  (Inr sx, Inr sy, Inr sa) \<Rightarrow>
                    (let sensor_request = \<lparr>req_ship_id = ship_id, req_position = (sx, sy), req_angle = sa\<rparr>;
                         sensor_data = sense sensor_request
                     in decide_from_sensors e sensor_data a)
                | _ \<Rightarrow> (Inl KeyError, a))))"

definition decide_endpoint ::
  "(sensor_request \<Rightarrow> sensor_data) \<Rightarrow> env \<Rightarrow> game_data \<Rightarrow> agent \<Rightarrow> (py_error + command) \<times> agent" where
  "decide_endpoint sense e game_data a =
     (case decide_endpoint_body sense e game_data a of
        (Inl err, a1) \<Rightarrow> (Inr neutral_command, a1)
      | (Inr c, a1) \<Rightarrow> (Inr c, a1))"

text \<open>What the sensor endpoint returns when it fails: no hit and no radar object.\<close>

definition sense_failed :: "sensor_request \<Rightarrow> sensor_data" where
  "sense_failed r =
     \<lparr>sd_position = None, sd_laser_hit = Some False, sd_laser_distance = None,
      sd_radar_objects = Some []\<rparr>"

subsection \<open>Invariants and concrete inputs of the agent\<close>

text \<open>The invariant of the stuck detector: the counter is not negative, and at least 3 when the flag is set.\<close>

definition stuck_inv :: "stuck_detection \<Rightarrow> bool" where
  "stuck_inv sd = (0 \<le> stuck_count sd \<and> (if is_stuck sd then 3 \<le> stuck_count sd else True))"

text \<open>The stuck detector as the constructor leaves it, the two timers apart.\<close>

definition agent_unstuck :: "agent \<Rightarrow> bool" where
  "agent_unstuck a =
     (\<not> is_stuck (stuck_detection a) \<and> stuck_count (stuck_detection a) = 0 \<and>
      position (stuck_detection a) = None \<and> escape_direction (stuck_detection a) = 1)"

text \<open>Concrete inputs: a reading with a position attribute, a plain dictionary, a radar object, an environment.\<close>

definition pos_sample :: "real \<Rightarrow> real \<Rightarrow> sensor_data" where
  "pos_sample a b =
     \<lparr>sd_position = Some (a, b), sd_laser_hit = Some False, sd_laser_distance = Some None,
      sd_radar_objects = Some []\<rparr>"

definition dict_reading :: "bool \<Rightarrow> real option \<Rightarrow> radar_object list \<Rightarrow> sensor_data" where
  "dict_reading hit ld objs =
     \<lparr>sd_position = None, sd_laser_hit = Some hit, sd_laser_distance = Some ld,
      sd_radar_objects = Some objs\<rparr>"

definition mk_obj :: "string \<Rightarrow> real \<Rightarrow> real \<Rightarrow> radar_object" where
  "mk_obj ty d ang = \<lparr>obj_type = ty, obj_distance = d, obj_angle = ang\<rparr>"

definition env0 :: "real \<Rightarrow> env" where
  "env0 t = \<lparr>time_decide = t, time_update = t, rnd_rotate = 0, rnd_thrust = 0.1, rnd_shoot = 0.5,
     rnd_choice = 1, rnd_explore = 0, rnd_legacy = 0.5, rnd_legacy_rotate = 0,
     rnd_legacy_thrust = 0, rnd_legacy_shoot = 0.5\<rparr>"

section \<open>The engine\<close>

subsection \<open>Rectangles of the graphics library\<close>

text \<open>
  The engine tests overlap with \<^verbatim>\<open>pygame.Rect\<close>, a class of the graphics library
  and not of this repository. It is modelled as the library documents it: a rectangle
  has integer fields, numbers given to the constructor are cut towards zero, and two
  rectangles collide when their interiors overlap (edges that only touch do not count,
  and a rectangle without area collides with nothing). None of the properties proved
  below about the engine depends on these details.
\<close>

record rect =
  rect_x :: int
  rect_y :: int
  rect_width :: int
  rect_height :: int

definition py_int :: "real \<Rightarrow> int" where
  "py_int r = (if 0 \<le> r then \<lfloor>r\<rfloor> else \<lceil>r\<rceil>)"

definition Rect :: "real \<Rightarrow> real \<Rightarrow> real \<Rightarrow> real \<Rightarrow> rect" where
  "Rect a b w h = \<lparr>rect_x = py_int a, rect_y = py_int b, rect_width = py_int w, rect_height = py_int h\<rparr>"

definition colliderect :: "rect \<Rightarrow> rect \<Rightarrow> bool" where
  "colliderect A B =
     (if rect_width A = 0 \<or> rect_height A = 0 \<or> rect_width B = 0 \<or> rect_height B = 0 then False
      else
        min (rect_x A) (rect_x A + rect_width A) < max (rect_x B) (rect_x B + rect_width B) \<and>
        min (rect_y A) (rect_y A + rect_height A) < max (rect_y B) (rect_y B + rect_height B) \<and>
        max (rect_x A) (rect_x A + rect_width A) > min (rect_x B) (rect_x B + rect_width B) \<and>
        max (rect_y A) (rect_y A + rect_height A) > min (rect_y B) (rect_y B + rect_height B))"

subsection \<open>Space objects\<close>

datatype patrol_state_t = PATROL_STATE_FORWARD | PATROL_STATE_TURNING | PATROL_STATE_WALL_AVOID

text \<open>
  \<^verbatim>\<open>SpaceObject\<close>. The field \<^verbatim>\<open>concurrents\<close> is the engine's own list of ships;
  the functions below are given the other ships of that list instead.
\<close>

record space_object =
  so_x :: real
  so_y :: real
  so_angle :: real
  so_vx :: real
  so_vy :: real
  so_hp :: int
  patrol_state :: patrol_state_t
  patrol_timer :: int
  patrol_turn_target :: real
  patrol_direction :: int

definition WORLD_WIDTH :: real where "WORLD_WIDTH = 2000"

definition WORLD_HEIGHT :: real where "WORLD_HEIGHT = 2000"

text \<open>The constructor, with velocity 0 and the patrol fields as \<^verbatim>\<open>__init__\<close> sets them.\<close>

definition SpaceObject :: "real \<Rightarrow> real \<Rightarrow> real \<Rightarrow> int \<Rightarrow> space_object" where
  "SpaceObject a b ang h =
     \<lparr>so_x = a, so_y = b, so_angle = ang, so_vx = 0, so_vy = 0, so_hp = h,
      patrol_state = PATROL_STATE_FORWARD, patrol_timer = 0, patrol_turn_target = 0,
      patrol_direction = 1\<rparr>"

text \<open>Python's \<^verbatim>\<open>%\<close> on floats with the divisor 360: the result lies in [0, 360).\<close>

definition mod360 :: "real \<Rightarrow> real" where
  "mod360 r = r - 360 * of_int \<lfloor>r / 360\<rfloor>"

definition update_position :: "bool \<Rightarrow> space_object \<Rightarrow> space_object" where
  "update_position is_enemy s =
     (let max_speed = (if \<not> is_enemy then 8 else 3);
          friction = 0.99;
          vx1 = so_vx s * friction;
          vy1 = so_vy s * friction;
          vx2 = max (- max_speed) (min vx1 max_speed);
          vy2 = max (- max_speed) (min vy1 max_speed);
          x1 = so_x s + vx2;
          y1 = so_y s + vy2
      in s\<lparr>so_vx := vx2, so_vy := vy2,
           so_x := max 0 (min x1 WORLD_WIDTH), so_y := max 0 (min y1 WORLD_HEIGHT)\<rparr>)"

definition thrust :: "real \<Rightarrow> space_object \<Rightarrow> space_object" where
  "thrust amount s =
     (let rad = radians (so_angle s)
      in s\<lparr>so_vx := so_vx s + cos rad * amount, so_vy := so_vy s + sin rad * amount\<rparr>)"

definition rotate :: "real \<Rightarrow> space_object \<Rightarrow> space_object" where
  "rotate degrees s = s\<lparr>so_angle := mod360 (so_angle s + degrees)\<rparr>"

text \<open>
  \<^verbatim>\<open>check_wall_collision\<close>: one obstacle of the loop. The rectangle of the ship is
  computed once, before the loop, and the position is corrected obstacle by obstacle.
\<close>

definition bounce :: "rect \<Rightarrow> rect \<Rightarrow> space_object \<Rightarrow> space_object" where
  "bounce ship_rect wall s =
     (if colliderect ship_rect wall then
        (let s1 = (if so_x s < of_int (rect_x wall)
                   then s\<lparr>so_x := of_int (rect_x wall) - 10, so_vx := 0\<rparr>
                   else if so_x s > of_int (rect_x wall + rect_width wall)
                   then s\<lparr>so_x := of_int (rect_x wall + rect_width wall) + 10, so_vx := 0\<rparr>
                   else s)
         in if so_y s1 < of_int (rect_y wall)
            then s1\<lparr>so_y := of_int (rect_y wall) - 10, so_vy := 0\<rparr>
            else if so_y s1 > of_int (rect_y wall + rect_height wall)
            then s1\<lparr>so_y := of_int (rect_y wall + rect_height wall) + 10, so_vy := 0\<rparr>
            else s1)
      else s)"

definition ship_box :: "space_object \<Rightarrow> rect" where
  "ship_box s = Rect (so_x s - 10) (so_y s - 10) 20 20"

definition check_wall_collision :: "rect list \<Rightarrow> space_object list \<Rightarrow> space_object \<Rightarrow> space_object" where
  "check_wall_collision walls others s =
     (let ship_rect = ship_box s;
          concurrent_react = map ship_box others
      in foldl (\<lambda>acc wall. bounce ship_rect wall acc) s (walls @ concurrent_react))"

subsection \<open>Patrol\<close>

text \<open>The random numbers one call of \<^verbatim>\<open>patrol_movement\<close> may draw.\<close>

record patrol_draws =
  pd_jitter :: real
  pd_transition :: real
  pd_sign :: int
  pd_degrees :: int

text \<open>The probe: a box of the size of a ship, 80 units ahead, against the walls.\<close>

definition wall_ahead :: "space_object \<Rightarrow> rect list \<Rightarrow> bool" where
  "wall_ahead enemy walls =
     (let ahead_distance = 80;
          rad = radians (so_angle enemy);
          look_x = so_x enemy + cos rad * ahead_distance;
          look_y = so_y enemy + sin rad * ahead_distance;
          look_rect = Rect (look_x - 10) (look_y - 10) 20 20
      in list_ex (\<lambda>wall. colliderect look_rect wall) walls)"

definition patrol_forward :: "bool \<Rightarrow> patrol_draws \<Rightarrow> space_object \<Rightarrow> space_object" where
  "patrol_forward ahead d enemy =
     (let e1 = thrust 0.2 enemy;
          e2 = (if patrol_timer e1 mod 60 = 0 then rotate (pd_jitter d) e1 else e1);
          e3 = (if patrol_timer e2 > 180 \<and> pd_transition d < 0.01
                then (let target = real_of_int (pd_sign d * pd_degrees d)
                      in e2\<lparr>patrol_state := PATROL_STATE_TURNING, patrol_timer := 0,
                            patrol_turn_target := target,
                            patrol_direction := (if target > 0 then 1 else -1)\<rparr>)
                else e2)
      in if ahead then e3\<lparr>patrol_state := PATROL_STATE_WALL_AVOID, patrol_timer := 0\<rparr> else e3)"

definition patrol_turning :: "bool \<Rightarrow> space_object \<Rightarrow> space_object" where
  "patrol_turning ahead enemy =
     (let turn_amount = min 2.0 (\<bar>patrol_turn_target enemy\<bar> * 0.1);
          e1 = rotate (turn_amount * real_of_int (patrol_direction enemy)) enemy;
          e2 = e1\<lparr>patrol_turn_target :=
                    patrol_turn_target e1 - turn_amount * real_of_int (patrol_direction e1)\<rparr>;
          e3 = thrust 0.1 e2;
          e4 = (if \<bar>patrol_turn_target e3\<bar> < 5 \<or> patrol_timer e3 > 120
                then e3\<lparr>patrol_state := PATROL_STATE_FORWARD, patrol_timer := 0\<rparr>
                else e3)
      in if ahead then e4\<lparr>patrol_state := PATROL_STATE_WALL_AVOID, patrol_timer := 0\<rparr> else e4)"

definition patrol_wall_avoid :: "bool \<Rightarrow> space_object \<Rightarrow> space_object" where
  "patrol_wall_avoid ahead enemy =
     (let e1 = rotate (4 * real_of_int (patrol_direction enemy)) enemy;
          e2 = (if patrol_timer e1 < 15 then thrust (- 0.2) e1 else e1);
          e3 = (if patrol_timer e2 > 30 \<and> \<not> ahead
                then e2\<lparr>patrol_state := PATROL_STATE_FORWARD, patrol_timer := 0,
                        patrol_direction := patrol_direction e2 * (- 1)\<rparr>
                else e2)
      in if patrol_timer e3 > 90
         then e3\<lparr>patrol_state := PATROL_STATE_TURNING, patrol_timer := 0, patrol_turn_target := 180\<rparr>
         else e3)"

text \<open>
  \<^verbatim>\<open>patrol_movement\<close>: the timer, the probe, then the branch of the current state.
  It returns the probe's answer and the enemy as changed.
\<close>

definition patrol_movement :: "patrol_draws \<Rightarrow> rect list \<Rightarrow> space_object \<Rightarrow> bool \<times> space_object" where
  "patrol_movement d walls enemy =
     (let e0 = enemy\<lparr>patrol_timer := patrol_timer enemy + 1\<rparr>;
          ahead = wall_ahead e0 walls
      in (ahead,
          (case patrol_state e0 of
             PATROL_STATE_FORWARD \<Rightarrow> patrol_forward ahead d e0
           | PATROL_STATE_TURNING \<Rightarrow> patrol_turning ahead e0
           | PATROL_STATE_WALL_AVOID \<Rightarrow> patrol_wall_avoid ahead e0)))"

text \<open>Consecutive calls: the enemies after each call, and whether every probe was clear.\<close>

fun patrol_trace :: "space_object \<Rightarrow> rect list \<Rightarrow> patrol_draws list \<Rightarrow> space_object list" where
  "patrol_trace enemy walls [] = []"
| "patrol_trace enemy walls (d # ds) =
     snd (patrol_movement d walls enemy) # patrol_trace (snd (patrol_movement d walls enemy)) walls ds"

fun probes_clear :: "space_object \<Rightarrow> rect list \<Rightarrow> patrol_draws list \<Rightarrow> bool" where
  "probes_clear enemy walls [] = True"
| "probes_clear enemy walls (d # ds) =
     (\<not> fst (patrol_movement d walls enemy) \<and>
      probes_clear (snd (patrol_movement d walls enemy)) walls ds)"

subsection \<open>Bullets and the update of the engine\<close>

record bullet =
  bullet_x :: real
  bullet_y :: real
  bullet_angle :: real
  bullet_owner :: int
  bullet_lifespan :: int
  bullet_vx :: real
  bullet_vy :: real

definition bullet_update :: "bullet \<Rightarrow> bullet" where
  "bullet_update b =
     b\<lparr>bullet_x := bullet_x b + bullet_vx b, bullet_y := bullet_y b + bullet_vy b,
       bullet_lifespan := bullet_lifespan b - 1\<rparr>"

definition is_offscreen :: "bullet \<Rightarrow> real \<Rightarrow> real \<Rightarrow> bool" where
  "is_offscreen b world_width world_height =
     (\<not> (0 \<le> bullet_x b \<and> bullet_x b \<le> world_width \<and> 0 \<le> bullet_y b \<and> bullet_y b \<le> world_height)
      \<or> bullet_lifespan b \<le> 0)"

text \<open>\<^verbatim>\<open>_collides\<close>: the distance of the bullet from the centre of the ship, below 15.\<close>

definition collides :: "bullet \<Rightarrow> space_object \<Rightarrow> bool" where
  "collides b ship = (sqrt ((bullet_x b - so_x ship)\<^sup>2 + (bullet_y b - so_y ship)\<^sup>2) < 15)"

text \<open>
  The engine: its ships, its bullets and the score, a list of two numbers that is never
  resized and is kept as a pair here.
\<close>

record game_engine =
  eng_ships :: "space_object list"
  eng_bullets :: "bullet list"
  eng_score :: "int \<times> int"

text \<open>The position and the heading drawn for a replacement enemy.\<close>

record spawn_draw =
  spawn_x :: int
  spawn_y :: int
  spawn_angle :: int

definition spawn_ship :: "spawn_draw \<Rightarrow> space_object" where
  "spawn_ship sp = SpaceObject (of_int (spawn_x sp)) (of_int (spawn_y sp)) (of_int (spawn_angle sp)) 100"

text \<open>
  The loop over the copy of the ship list. \<open>i\<close> is the index in the copy, \<open>kept\<close> the
  ships already visited that stay in the list, \<open>todo\<close> the ships from the current one on;
  the live list of the engine is \<open>kept\<close> followed by \<open>todo\<close>, so these two without the
  current ship are the other ships it can bump into. A ship without hit points is
  removed, and two enemies are queued when its index in the copy is 1.
\<close>

fun update_ships ::
  "rect list \<Rightarrow> spawn_draw \<Rightarrow> spawn_draw \<Rightarrow> nat \<Rightarrow> space_object list \<Rightarrow> space_object list \<Rightarrow>
     space_object list \<Rightarrow> space_object list \<times> space_object list" where
  "update_ships walls sp1 sp2 i kept [] new_ships = (kept, new_ships)"
| "update_ships walls sp1 sp2 i kept (ship # rest) new_ships =
     (let is_enemy = (i = 1);
          s1 = update_position is_enemy ship;
          s2 = check_wall_collision walls (kept @ rest) s1
      in if so_hp s2 \<le> 0
         then update_ships walls sp1 sp2 (Suc i) kept rest
                (if is_enemy then new_ships @ [spawn_ship sp1, spawn_ship sp2] else new_ships)
         else update_ships walls sp1 sp2 (Suc i) (kept @ [s2]) rest new_ships)"

text \<open>
  One bullet against the ships, from index \<open>i\<close> on: damage for every ship it
  collides with that is not its owner, and 10 points when the ship at index 1 is left
  without hit points.
\<close>

fun hit_ships ::
  "bullet \<Rightarrow> nat \<Rightarrow> space_object list \<Rightarrow> int \<times> int \<Rightarrow> bool \<Rightarrow>
     space_object list \<times> (int \<times> int) \<times> bool" where
  "hit_ships b i [] sc hit = ([], sc, hit)"
| "hit_ships b i (ship # rest) sc hit =
     (if int i \<noteq> bullet_owner b \<and> collides b ship then
        (let ship1 = ship\<lparr>so_hp := so_hp ship - 10\<rparr>;
             sc1 = (if so_hp ship1 \<le> 0 \<and> i = 1 then (fst sc + 10, snd sc) else sc);
             (rest1, sc2, hit2) = hit_ships b (Suc i) rest sc1 True
         in (ship1 # rest1, sc2, hit2))
      else
        (let (rest1, sc2, hit2) = hit_ships b (Suc i) rest sc hit
         in (ship # rest1, sc2, hit2)))"

definition bullet_hits_wall :: "bullet \<Rightarrow> rect list \<Rightarrow> bool" where
  "bullet_hits_wall b walls =
     (let bullet_rect = Rect (bullet_x b - 3) (bullet_y b - 3) 6 6
      in list_ex (\<lambda>wall. colliderect bullet_rect wall) walls)"

fun bullets_loop ::
  "rect list \<Rightarrow> bullet list \<Rightarrow> space_object list \<Rightarrow> int \<times> int \<Rightarrow> bullet list \<Rightarrow>
     space_object list \<times> (int \<times> int) \<times> bullet list" where
  "bullets_loop walls [] ships sc new_bullets = (ships, sc, new_bullets)"
| "bullets_loop walls (b # bs) ships sc new_bullets =
     (let (ships1, sc1, hit) = hit_ships b 0 ships sc (bullet_hits_wall b walls)
      in bullets_loop walls bs ships1 sc1
           (if \<not> hit \<and> bullet_lifespan b > 0 then new_bullets @ [b] else new_bullets))"

text \<open>The ship list after the first loop: the ships that stay, then the queued enemies.\<close>

definition ships_after_removal :: "rect list \<Rightarrow> spawn_draw \<Rightarrow> spawn_draw \<Rightarrow> space_object list \<Rightarrow> space_object list" where
  "ships_after_removal walls sp1 sp2 ships =
     (let (kept, new_ships) = update_ships walls sp1 sp2 0 [] ships [] in kept @ new_ships)"

text \<open>
  \<^verbatim>\<open>GameEngine.update\<close>. The two draws are used when replacements are made. The
  publication of the state to the server at the end is not part of the model.
\<close>

definition update :: "rect list \<Rightarrow> spawn_draw \<Rightarrow> spawn_draw \<Rightarrow> game_engine \<Rightarrow> game_engine" where
  "update walls sp1 sp2 eng =
     (let ships1 = ships_after_removal walls sp1 sp2 (eng_ships eng);
          moved = map bullet_update (eng_bullets eng);
          (ships2, sc, new_bullets) = bullets_loop walls moved ships1 (eng_score eng) []
      in eng\<lparr>eng_ships := ships2,
             eng_bullets := filter (\<lambda>b. \<not> is_offscreen b WORLD_WIDTH WORLD_HEIGHT) new_bullets,
             eng_score := sc\<rparr>)"

text \<open>The same ships in the same places, with hit points that have not grown.\<close>

definition worn :: "space_object list \<Rightarrow> space_object list \<Rightarrow> bool" where
  "worn ships ships1 =
     (length ships1 = length ships \<and>
      (\<forall>j<length ships. so_x (ships1 ! j) = so_x (ships ! j) \<and> so_y (ships1 ! j) = so_y (ships ! j) \<and>
         so_hp (ships1 ! j) \<le> so_hp (ships ! j)))"

definition ship_at :: "real \<Rightarrow> real \<Rightarrow> int \<Rightarrow> space_object" where
  "ship_at a b h = SpaceObject a b 0 h"

definition spawn0 :: spawn_draw where
  "spawn0 = \<lparr>spawn_x = 1000, spawn_y = 1500, spawn_angle = 90\<rparr>"

definition bullet_at :: "real \<Rightarrow> real \<Rightarrow> int \<Rightarrow> bullet" where
  "bullet_at a b own =
     \<lparr>bullet_x = a, bullet_y = b, bullet_angle = 0, bullet_owner = own, bullet_lifespan = 60,
      bullet_vx = 15, bullet_vy = 0\<rparr>"

definition patrol_wall :: rect where
  "patrol_wall = \<lparr>rect_x = 1000, rect_y = 200, rect_width = 20, rect_height = 800\<rparr>"

definition quiet_draws :: patrol_draws where
  "quiet_draws = \<lparr>pd_jitter = 0, pd_transition = 0.5, pd_sign = 1, pd_degrees = 90\<rparr>"

definition heading_east :: "space_object \<Rightarrow> bool" where
  "heading_east s =
     (so_x s = 400 \<and> so_y s = 400 \<and> so_angle s = 0 \<and> patrol_state s = PATROL_STATE_FORWARD)"

section \<open>Properties of the geometry kernel\<close>

lemma sqrt_900: "sqrt 900 = 30"
  by (rule real_sqrt_unique) auto

lemma sqrt_100: "sqrt 100 = 10"
  by (rule real_sqrt_unique) auto

lemma sqrt_16: "sqrt 16 = 4"
  by (rule real_sqrt_unique) auto

lemma laser_loop_le: "snd (laser_loop x y ex ey ws (c, m)) \<le> m"
proof (induction ws arbitrary: c m)
  case Nil
  then show ?case by simp
next
  case (Cons w ws)
  show ?case
  proof (cases "line_intersects_rect x y ex ey w")
    case None
    then show ?thesis using Cons.IH[of c m] by simp
  next
    case (Some p)
    obtain hx hy where p: "p = (hx, hy)" by (cases p)
    define d where "d = sqrt ((hx - x)\<^sup>2 + (hy - y)\<^sup>2)"
    show ?thesis
    proof (cases "d < m")
      case True
      have "snd (laser_loop x y ex ey ws (Some (hx, hy), d)) \<le> d" by (rule Cons.IH)
      with True show ?thesis using Some p by (simp add: d_def Let_def)
    next
      case False
      then show ?thesis using Some p Cons.IH[of c m] by (simp add: d_def Let_def)
    qed
  qed
qed

lemma laser_loop_hit_lt:
  "fst (laser_loop x y ex ey ws (None, m)) \<noteq> None \<Longrightarrow> snd (laser_loop x y ex ey ws (None, m)) < m"
proof (induction ws)
  case Nil
  then show ?case by simp
next
  case (Cons w ws)
  show ?case
  proof (cases "line_intersects_rect x y ex ey w")
    case None
    then show ?thesis using Cons by simp
  next
    case (Some p)
    obtain hx hy where p: "p = (hx, hy)" by (cases p)
    define d where "d = sqrt ((hx - x)\<^sup>2 + (hy - y)\<^sup>2)"
    show ?thesis
    proof (cases "d < m")
      case True
      have "snd (laser_loop x y ex ey ws (Some (hx, hy), d)) \<le> d" by (rule laser_loop_le)
      with True show ?thesis using Some p by (simp add: d_def Let_def)
    next
      case False
      then show ?thesis using Some p Cons by (simp add: d_def Let_def)
    qed
  qed
qed

text \<open>A reported laser distance is below the range of 50 units.\<close>

lemma check_laser_range:
  assumes "check_laser x y angle walls = (True, Some d)"
  shows "d < 50"
proof -
  define r where "r = laser_loop x y (x + cos (radians angle) * 50) (y + sin (radians angle) * 50) walls (None, 50)"
  from assms have "fst r \<noteq> None" and "d = snd r"
    by (auto simp: check_laser_def Let_def r_def split: prod.splits if_splits)
  then show ?thesis using laser_loop_hit_lt[of x y _ _ walls 50] by (simp add: r_def)
qed

lemma laser_loop_no_hit:
  "\<forall>w\<in>set ws. line_intersects_rect x y ex ey w = None \<Longrightarrow> laser_loop x y ex ey ws (c, m) = (c, m)"
  by (induction ws) auto

text \<open>Without a wall on the ray the laser reports no hit and no distance.\<close>

lemma check_laser_no_hit:
  assumes "\<forall>w\<in>set walls. line_intersects_rect x y (x + cos (radians angle) * 50) (y + sin (radians angle) * 50) w = None"
  shows "check_laser x y angle walls = (False, None)"
  using laser_loop_no_hit[OF assms] by (simp add: check_laser_def Let_def)

text \<open>
  C1. The laser is claimed to report the nearest intersection of the forward ray with
  the walls. In the labyrinth of the server, a ship at (190, 400) heading 0 faces the
  wall at x = 200..220: the ray meets its left edge at distance 10, and the laser
  reports 30, the distance to the right edge, which the edge loop tests first.
\<close>

theorem check_laser_reports_far_edge:
  "check_laser 190 400 0 walls_data = (True, Some 30) \<and>
   line_intersects_line 190 400 240 400 200 600 200 200 \<and>
   get_intersection_point 190 400 240 400 200 600 200 200 = Some (200, 400) \<and>
   sqrt ((200 - 190)\<^sup>2 + (400 - 400)\<^sup>2) = (10::real)"
proof -
  have "check_laser 190 400 0 walls_data = (True, Some 30)"
    by (simp add: check_laser_def radians_def line_intersects_rect_def rect_edges_def mk_wall_def
        walls_data_def line_intersects_line_def get_intersection_point_def Let_def sqrt_900)
  moreover have "line_intersects_line 190 400 240 400 200 600 200 200"
    by (simp add: line_intersects_line_def Let_def)
  moreover have "get_intersection_point 190 400 240 400 200 600 200 200 = Some (200, 400)"
    by (simp add: get_intersection_point_def Let_def)
  moreover have "sqrt ((200 - 190)\<^sup>2 + (400 - 400)\<^sup>2) = (10::real)"
    by (simp add: sqrt_100)
  ultimately show ?thesis by blast
qed

subsection \<open>Visibility and the bounding-box test\<close>

lemma convex_between:
  fixes a b t :: real
  assumes "0 \<le> t" "t \<le> 1"
  shows "min a b \<le> a + t * (b - a) \<and> a + t * (b - a) \<le> max a b"
proof (cases "a \<le> b")
  case True
  have h1: "0 \<le> t * (b - a)" using True assms by simp
  have h2: "t * (b - a) \<le> b - a" using mult_right_mono[of t 1 "b - a"] True assms by simp
  have "a \<le> a + t * (b - a)" "a + t * (b - a) \<le> b" using h1 h2 by linarith+
  then show ?thesis using True by simp
next
  case False
  have h1: "t * (b - a) \<le> 0" using False assms by (simp add: mult_nonneg_nonpos)
  have h2: "b - a \<le> t * (b - a)" using mult_right_mono_neg[of t 1 "b - a"] False assms by simp
  have "b \<le> a + t * (b - a)" "a + t * (b - a) \<le> a" using h1 h2 by linarith+
  then show ?thesis using False by simp
qed

lemma param_agree_x:
  fixes x1 y1 x2 y2 x3 y3 x4 y4 :: real
  assumes "(y4 - y3) * (x2 - x1) - (x4 - x3) * (y2 - y1) \<noteq> 0"
  shows "x1 + ((x4 - x3) * (y1 - y3) - (y4 - y3) * (x1 - x3)) / ((y4 - y3) * (x2 - x1) - (x4 - x3) * (y2 - y1)) * (x2 - x1)
       = x3 + ((x2 - x1) * (y1 - y3) - (y2 - y1) * (x1 - x3)) / ((y4 - y3) * (x2 - x1) - (x4 - x3) * (y2 - y1)) * (x4 - x3)"
  using assms by (simp add: field_simps) 

lemma param_agree_y:
  fixes x1 y1 x2 y2 x3 y3 x4 y4 :: real
  assumes "(y4 - y3) * (x2 - x1) - (x4 - x3) * (y2 - y1) \<noteq> 0"
  shows "y1 + ((x4 - x3) * (y1 - y3) - (y4 - y3) * (x1 - x3)) / ((y4 - y3) * (x2 - x1) - (x4 - x3) * (y2 - y1)) * (y2 - y1)
       = y3 + ((x2 - x1) * (y1 - y3) - (y2 - y1) * (x1 - x3)) / ((y4 - y3) * (x2 - x1) - (x4 - x3) * (y2 - y1)) * (y4 - y3)"
  using assms by (simp add: field_simps) 

lemma hit_in_boxes:
  assumes "line_intersects_line x1 y1 x2 y2 x3 y3 x4 y4"
  shows "\<exists>p. get_intersection_point x1 y1 x2 y2 x3 y3 x4 y4 = Some p \<and>
             in_boxes x1 y1 x2 y2 (x3, y3, x4, y4) p"
proof -
  define den where "den = (y4 - y3) * (x2 - x1) - (x4 - x3) * (y2 - y1)"
  define ua where "ua = ((x4 - x3) * (y1 - y3) - (y4 - y3) * (x1 - x3)) / den"
  define ub where "ub = ((x2 - x1) * (y1 - y3) - (y2 - y1) * (x1 - x3)) / den"
  from assms have den: "den \<noteq> 0"
    by (auto simp: line_intersects_line_def den_def Let_def split: if_splits)
  from assms den have ua: "0 \<le> ua" "ua \<le> 1" and ub: "0 \<le> ub" "ub \<le> 1"
    by (auto simp: line_intersects_line_def den_def ua_def ub_def Let_def split: if_splits)
  have pt: "get_intersection_point x1 y1 x2 y2 x3 y3 x4 y4 = Some (x1 + ua * (x2 - x1), y1 + ua * (y2 - y1))"
    using den by (simp add: get_intersection_point_def den_def ua_def Let_def)
  have ex: "x1 + ua * (x2 - x1) = x3 + ub * (x4 - x3)"
    unfolding ua_def ub_def den_def using den[unfolded den_def] by (rule param_agree_x)
  have ey: "y1 + ua * (y2 - y1) = y3 + ub * (y4 - y3)"
    unfolding ua_def ub_def den_def using den[unfolded den_def] by (rule param_agree_y)
  have "in_boxes x1 y1 x2 y2 (x3, y3, x4, y4) (x1 + ua * (x2 - x1), y1 + ua * (y2 - y1))"
    using convex_between[OF ua, of x1 x2] convex_between[OF ua, of y1 y2]
      convex_between[OF ub, of x3 x4] convex_between[OF ub, of y3 y4] ex ey
    by (simp add: in_boxes_def)
  with pt show ?thesis by blast
qed

lemma first_edge_hit_in_boxes:
  assumes "first_edge_hit x1 y1 x2 y2 es \<noteq> None"
  shows "\<exists>p e. first_edge_hit x1 y1 x2 y2 es = Some p \<and> e \<in> set es \<and> in_boxes x1 y1 x2 y2 e p"
  using assms
proof (induction es)
  case Nil
  then show ?case by simp
next
  case (Cons e es)
  obtain x3 y3 x4 y4 where e: "e = (x3, y3, x4, y4)" by (cases e) auto
  show ?case
  proof (cases "line_intersects_line x1 y1 x2 y2 x3 y3 x4 y4")
    case True
    from hit_in_boxes[OF True] obtain p where
      p: "get_intersection_point x1 y1 x2 y2 x3 y3 x4 y4 = Some p" "in_boxes x1 y1 x2 y2 e p"
      unfolding e by blast
    have "first_edge_hit x1 y1 x2 y2 (e # es) = Some p" using True p(1) e by simp
    with p(2) show ?thesis by (intro exI[of _ p] exI[of _ e]) simp
  next
    case False
    then have eq: "first_edge_hit x1 y1 x2 y2 (e # es) = first_edge_hit x1 y1 x2 y2 es"
      using e by simp
    with Cons.prems have "first_edge_hit x1 y1 x2 y2 es \<noteq> None" by simp
    from Cons.IH[OF this] obtain p e' where
      "first_edge_hit x1 y1 x2 y2 es = Some p" "e' \<in> set es" "in_boxes x1 y1 x2 y2 e' p" by blast
    then show ?thesis unfolding eq by (intro exI[of _ p] exI[of _ e']) simp
  qed
qed

lemma abs_centre:
  fixes a w p :: real
  assumes "min a (a + w) \<le> p" "p \<le> max a (a + w)"
  shows "\<bar>p - (a + w / 2)\<bar> \<le> \<bar>w\<bar> / 2"
proof (cases "0 \<le> w")
  case True
  with assms have "a \<le> p" "p \<le> a + w" by simp_all
  with True show ?thesis by linarith
next
  case False
  with assms have "a + w \<le> p" "p \<le> a" by simp_all
  with False show ?thesis by linarith
qed

lemma edge_bounds:
  assumes "(x3, y3, x4, y4) \<in> set (rect_edges w)"
  shows "min (wall_x w) (wall_x w + wall_width w) \<le> min x3 x4"
    and "max x3 x4 \<le> max (wall_x w) (wall_x w + wall_width w)"
    and "min (wall_y w) (wall_y w + wall_height w) \<le> min y3 y4"
    and "max y3 y4 \<le> max (wall_y w) (wall_y w + wall_height w)"
  using assms by (auto simp: rect_edges_def Let_def)

lemma rect_hit_in_boxes:
  assumes "line_intersects_rect x1 y1 x2 y2 w \<noteq> None"
  shows "\<exists>px py. line_intersects_rect x1 y1 x2 y2 w = Some (px, py) \<and>
           min x1 x2 \<le> px \<and> px \<le> max x1 x2 \<and> min y1 y2 \<le> py \<and> py \<le> max y1 y2 \<and>
           \<bar>px - (wall_x w + wall_width w / 2)\<bar> \<le> \<bar>wall_width w\<bar> / 2 \<and>
           \<bar>py - (wall_y w + wall_height w / 2)\<bar> \<le> \<bar>wall_height w\<bar> / 2"
proof -
  from first_edge_hit_in_boxes[OF assms[unfolded line_intersects_rect_def]]
  obtain p e where
    pe: "first_edge_hit x1 y1 x2 y2 (rect_edges w) = Some p" "e \<in> set (rect_edges w)"
        "in_boxes x1 y1 x2 y2 e p"
    by blast
  obtain px py where p: "p = (px, py)" by (cases p)
  obtain x3 y3 x4 y4 where e: "e = (x3, y3, x4, y4)" by (cases e) auto
  from pe(3) have
    h: "min x1 x2 \<le> px" "px \<le> max x1 x2" "min y1 y2 \<le> py" "py \<le> max y1 y2"
       "min x3 x4 \<le> px" "px \<le> max x3 x4" "min y3 y4 \<le> py" "py \<le> max y3 y4"
    unfolding p e in_boxes_def by simp_all
  note eb = edge_bounds[OF pe(2)[unfolded e]]
  have "min (wall_x w) (wall_x w + wall_width w) \<le> px" using eb(1) h(5) by linarith
  moreover have "px \<le> max (wall_x w) (wall_x w + wall_width w)" using eb(2) h(6) by linarith
  ultimately have bx: "\<bar>px - (wall_x w + wall_width w / 2)\<bar> \<le> \<bar>wall_width w\<bar> / 2" by (rule abs_centre)
  have "min (wall_y w) (wall_y w + wall_height w) \<le> py" using eb(3) h(7) by linarith
  moreover have "py \<le> max (wall_y w) (wall_y w + wall_height w)" using eb(4) h(8) by linarith
  ultimately have by': "\<bar>py - (wall_y w + wall_height w / 2)\<bar> \<le> \<bar>wall_height w\<bar> / 2" by (rule abs_centre)
  from pe(1) h(1-4) bx by' show ?thesis by (simp add: line_intersects_rect_def p)
qed

lemma thin_wall_not_skipped:
  assumes "thin_wall w" "line_intersects_rect x1 y1 x2 y2 w \<noteq> None"
  shows "\<not> wall_skipped x1 y1 x2 y2 w"
proof -
  from rect_hit_in_boxes[OF assms(2)] obtain px py where
    h: "min x1 x2 \<le> px" "px \<le> max x1 x2" "min y1 y2 \<le> py" "py \<le> max y1 y2"
       "\<bar>px - (wall_x w + wall_width w / 2)\<bar> \<le> \<bar>wall_width w\<bar> / 2"
       "\<bar>py - (wall_y w + wall_height w / 2)\<bar> \<le> \<bar>wall_height w\<bar> / 2"
    by blast
  from assms(1) show ?thesis
    unfolding thin_wall_def
  proof
    assume "\<bar>wall_width w\<bar> \<le> 40"
    with h(1,2,5) show ?thesis by (auto simp: wall_skipped_def Let_def)
  next
    assume "\<bar>wall_height w\<bar> \<le> 40"
    with h(3,4,6) show ?thesis by (auto simp: wall_skipped_def Let_def)
  qed
qed

lemma visible_loop_thin:
  assumes "\<forall>w\<in>set walls. thin_wall w"
  shows "visible_loop x1 y1 x2 y2 walls = (\<forall>w\<in>set walls. line_intersects_rect x1 y1 x2 y2 w = None)"
  using assms
proof (induction walls)
  case Nil
  then show ?case by simp
next
  case (Cons w ws)
  then have ih: "visible_loop x1 y1 x2 y2 ws = (\<forall>w\<in>set ws. line_intersects_rect x1 y1 x2 y2 w = None)"
    and thin: "thin_wall w" by simp_all
  show ?case
  proof (cases "line_intersects_rect x1 y1 x2 y2 w = None")
    case True
    then show ?thesis using ih by simp
  next
    case False
    with thin have "\<not> wall_skipped x1 y1 x2 y2 w" by (rule thin_wall_not_skipped)
    with False show ?thesis by simp
  qed
qed

lemma list_all_thin_walls_data: "list_all thin_wall walls_data"
  by (simp add: walls_data_def thin_wall_def mk_wall_def)

text \<open>A candidate closer than 30 units is visible, whatever the walls.\<close>

lemma is_visible_close:
  "sqrt ((to_x - from_x)\<^sup>2 + (to_y - from_y)\<^sup>2) < 30 \<Longrightarrow> is_visible from_x from_y to_x to_y walls"
  by (simp add: is_visible_def)

text \<open>
  When every wall has a side of at most 40 units, as in the labyrinth, the bounding-box
  test skips no wall that the segment crosses, and the test agrees with the unfiltered
  reading.
\<close>

lemma is_visible_thin_walls:
  assumes "\<forall>w\<in>set walls. thin_wall w"
  shows "is_visible from_x from_y to_x to_y walls = is_visible_spec from_x from_y to_x to_y walls"
  using visible_loop_thin[OF assms, of from_x from_y to_x to_y]
  by (simp add: is_visible_def is_visible_spec_def Let_def list_all_iff)

lemma is_visible_labyrinth:
  "is_visible from_x from_y to_x to_y walls_data = is_visible_spec from_x from_y to_x to_y walls_data"
  using list_all_thin_walls_data by (intro is_visible_thin_walls) (simp add: list_all_iff)


text \<open>
  The corridor of the specification: a wall one unit wide across the line of sight hides
  the candidate, and without the wall the candidate is visible.
\<close>

lemma is_visible_corridor:
  "\<not> is_visible 0 0 100 0 [mk_wall 50 (-10) 1 20] \<and> is_visible 0 0 100 0 []"
proof -
  have "sqrt ((100::real)\<^sup>2) = 100" by simp
  then have d: "\<not> sqrt ((100 - 0)\<^sup>2 + (0 - 0)\<^sup>2) < (30::real)" by simp
  have "line_intersects_rect 0 0 100 0 (mk_wall 50 (-10) 1 20) = Some (51, 0)"
    by (simp add: line_intersects_rect_def rect_edges_def mk_wall_def line_intersects_line_def
        get_intersection_point_def Let_def)
  then show ?thesis using d by (simp add: is_visible_def wall_skipped_def mk_wall_def Let_def)
qed

subsection \<open>Touching segments\<close>




section \<open>The state cache before the first publication\<close>

text \<open>
  C8, as stated: before a state is published the query answers with the score [0, 0].
  The cache starts with an empty score list, and the query returns the cache.
\<close>

theorem get_game_state_initial_counterexample:
  "fst (get_game_state game_state_init) \<noteq> game_state_default_spec \<and>
   gs_score (fst (get_game_state game_state_init)) = [] \<and>
   gs_score (fst (get_game_state game_state_init)) \<noteq> [0, 0]"
  by (simp add: get_game_state_def game_state_init_def game_state_default_spec_def)

text \<open>
  C8, amended: before a state is published the query answers with four empty lists,
  the score among them, and leaves the cache as it is.
\<close>

theorem get_game_state_initial:
  "get_game_state game_state_init =
     (\<lparr>gs_ships = [], gs_bullets = [], gs_coins = [], gs_score = []\<rparr>, game_state_init)"
  by (simp add: get_game_state_def game_state_init_def)

text \<open>Once a state is published, the query returns it as it was posted.\<close>

lemma get_after_update:
  "fst (get_game_state (snd (update_state cache state))) = state"
  by (simp add: get_game_state_def update_state_def)

section \<open>Properties of the agent\<close>

subsection \<open>The stuck detector\<close>

lemma stuck_compare_low:
  assumes "distance_moved c p < 5"
  shows "stuck_count (stuck_compare c p sd) = stuck_count sd + 1"
    and "is_stuck (stuck_compare c p sd) = (is_stuck sd \<or> 3 \<le> stuck_count sd + 1)"
  using assms by (simp_all add: stuck_compare_def distance_moved_def Let_def)

lemma stuck_compare_high:
  assumes "\<not> distance_moved c p < 5"
  shows "stuck_count (stuck_compare c p sd) = max 0 (stuck_count sd - 1)"
    and "\<not> is_stuck (stuck_compare c p sd)"
  using assms by (simp_all add: stuck_compare_def distance_moved_def Let_def)

lemma stuck_compare_positions:
  "position (stuck_compare c p sd) = Some c"
  "last_position (stuck_compare c p sd) = position sd"
  "check_time (stuck_compare c p sd) = check_time sd"
  by (simp_all add: stuck_compare_def Let_def)

lemma update_low:
  assumes "sd_position s = Some c" "position sd = Some p" "distance_moved c p < 5"
  shows "stuck_count (update_stuck_detection t s sd) = stuck_count sd + 1"
    and "is_stuck (update_stuck_detection t s sd) = (is_stuck sd \<or> 3 \<le> stuck_count sd + 1)"
  using assms(1,2) stuck_compare_low[OF assms(3), of sd]
  by (simp_all add: update_stuck_detection_def Let_def)

lemma update_high:
  assumes "sd_position s = Some c" "position sd = Some p" "5 \<le> distance_moved c p"
  shows "stuck_count (update_stuck_detection t s sd) = max 0 (stuck_count sd - 1)"
    and "\<not> is_stuck (update_stuck_detection t s sd)"
proof -
  from assms(3) have n: "\<not> distance_moved c p < 5" by simp
  show "stuck_count (update_stuck_detection t s sd) = max 0 (stuck_count sd - 1)"
    and "\<not> is_stuck (update_stuck_detection t s sd)"
    using assms(1,2) stuck_compare_high[OF n, of sd]
    by (simp_all add: update_stuck_detection_def Let_def)
qed

lemma update_stores:
  assumes "sd_position s = Some c"
  shows "position (update_stuck_detection t s sd) = Some c"
    and "check_time (update_stuck_detection t s sd) = t"
  using assms
  by (simp_all add: update_stuck_detection_def stuck_compare_positions Let_def split: option.splits)

lemma update_rolls:
  assumes "sd_position s = Some c" "position sd = Some p"
  shows "last_position (update_stuck_detection t s sd) = Some p"
    and "last_check_time (update_stuck_detection t s sd) = check_time sd"
  using assms
  by (simp_all add: update_stuck_detection_def stuck_compare_positions Let_def)

lemma update_first:
  assumes "sd_position s = Some c" "position sd = None"
  shows "stuck_count (update_stuck_detection t s sd) = stuck_count sd"
    and "is_stuck (update_stuck_detection t s sd) = is_stuck sd"
    and "last_position (update_stuck_detection t s sd) = Some c"
  using assms by (simp_all add: update_stuck_detection_def)

lemma update_without_position:
  assumes "sd_position s = None"
  shows "stuck_count (update_stuck_detection t s sd) = stuck_count sd"
    and "is_stuck (update_stuck_detection t s sd) = is_stuck sd"
    and "position (update_stuck_detection t s sd) = position sd"
  using assms by (simp_all add: update_stuck_detection_def)

lemma update_keeps_inv:
  assumes "stuck_inv sd"
  shows "stuck_inv (update_stuck_detection t s sd)"
proof (cases "sd_position s")
  case None
  from update_without_position[OF None, of t sd] assms show ?thesis by (simp add: stuck_inv_def)
next
  case (Some c)
  show ?thesis
  proof (cases "position sd")
    case None
    from update_first[OF Some None, of t] assms show ?thesis by (simp add: stuck_inv_def)
  next
    case (Some p)
    note p = this
    show ?thesis
    proof (cases "distance_moved c p < 5")
      case True
      from update_low[OF \<open>sd_position s = Some c\<close> p True, of t] assms show ?thesis
        by (auto simp: stuck_inv_def split: if_splits)
    next
      case False
      then have "5 \<le> distance_moved c p" by simp
      from update_high[OF \<open>sd_position s = Some c\<close> p this, of t] assms show ?thesis
        by (auto simp: stuck_inv_def)
    qed
  qed
qed

lemma init_inv: "stuck_inv (stuck_detection (init_agent idx t0))"
  by (simp add: stuck_inv_def init_agent_def)

lemma feed_keeps_inv: "stuck_inv sd \<Longrightarrow> stuck_inv (feed_samples sd samples)"
  by (induction samples arbitrary: sd) (auto simp: update_keeps_inv)

text \<open>
  C4. In every state \<open>sd\<close> that the update reaches from a new agent, whatever the
  samples before, and for a sample at \<open>c\<close> when the sample before it, at \<open>p\<close>, is
  the stored one: a displacement below 5 units adds one to the counter, and the flag is
  then set exactly when the counter is 3 or more; a displacement of 5 units or more clears
  the flag and takes one from the counter, not below 0. The update stores the sample as
  the position the next sample is compared with, and keeps the one before as the last
  position; the first sample of all is only stored. So three samples in a row, each less
  than 5 units from the one before, add 3 to the counter and set the flag, and a fourth
  sample 5 units or more from the third clears it.
\<close>

theorem stuck_detector_update:
  assumes "sd = feed_samples (stuck_detection (init_agent idx t0)) samples"
  shows
    "(sd_position s = Some c \<and> position sd = Some p \<and> distance_moved c p < 5 \<longrightarrow>
        stuck_count (update_stuck_detection t s sd) = stuck_count sd + 1 \<and>
        is_stuck (update_stuck_detection t s sd) = (3 \<le> stuck_count (update_stuck_detection t s sd))) \<and>
     (sd_position s = Some c \<and> position sd = Some p \<and> 5 \<le> distance_moved c p \<longrightarrow>
        \<not> is_stuck (update_stuck_detection t s sd) \<and>
        stuck_count (update_stuck_detection t s sd) = max 0 (stuck_count sd - 1)) \<and>
     (sd_position s = Some c \<longrightarrow>
        position (update_stuck_detection t s sd) = Some c \<and>
        check_time (update_stuck_detection t s sd) = t) \<and>
     (sd_position s = Some c \<and> position sd = Some p \<longrightarrow>
        last_position (update_stuck_detection t s sd) = Some p \<and>
        last_check_time (update_stuck_detection t s sd) = check_time sd) \<and>
     (sd_position s = Some c \<and> position sd = None \<longrightarrow>
        stuck_count (update_stuck_detection t s sd) = stuck_count sd \<and>
        is_stuck (update_stuck_detection t s sd) = is_stuck sd) \<and>
     (position sd = Some p \<and> sd_position s1 = Some c1 \<and> sd_position s2 = Some c2 \<and>
      sd_position s3 = Some c3 \<and>
      distance_moved c1 p < 5 \<and> distance_moved c2 c1 < 5 \<and> distance_moved c3 c2 < 5 \<longrightarrow>
        is_stuck (feed_samples sd [(t1, s1), (t2, s2), (t3, s3)]) \<and>
        stuck_count (feed_samples sd [(t1, s1), (t2, s2), (t3, s3)]) = stuck_count sd + 3 \<and>
        position (feed_samples sd [(t1, s1), (t2, s2), (t3, s3)]) = Some c3 \<and>
        (sd_position s4 = Some c4 \<and> 5 \<le> distance_moved c4 c3 \<longrightarrow>
           \<not> is_stuck (feed_samples sd [(t1, s1), (t2, s2), (t3, s3), (t4, s4)])))"
proof -
  have inv: "stuck_inv sd"
    unfolding assms by (rule feed_keeps_inv[OF init_inv])
  have low: "stuck_count (update_stuck_detection t s sd) = stuck_count sd + 1 \<and>
        is_stuck (update_stuck_detection t s sd) = (3 \<le> stuck_count (update_stuck_detection t s sd))"
    if "sd_position s = Some c \<and> position sd = Some p \<and> distance_moved c p < 5"
  proof -
    from that have h: "sd_position s = Some c" "position sd = Some p" "distance_moved c p < 5"
      by simp_all
    from update_low[OF h, of t] inv show ?thesis by (auto simp: stuck_inv_def split: if_splits)
  qed
  have high: "\<not> is_stuck (update_stuck_detection t s sd) \<and>
        stuck_count (update_stuck_detection t s sd) = max 0 (stuck_count sd - 1)"
    if "sd_position s = Some c \<and> position sd = Some p \<and> 5 \<le> distance_moved c p"
  proof -
    from that have h: "sd_position s = Some c" "position sd = Some p" "5 \<le> distance_moved c p"
      by simp_all
    from update_high[OF h, of t] show ?thesis by simp
  qed
  have stores: "position (update_stuck_detection t s sd) = Some c \<and>
        check_time (update_stuck_detection t s sd) = t"
    if "sd_position s = Some c"
    using update_stores[OF that, of t sd] by simp
  have rolls: "last_position (update_stuck_detection t s sd) = Some p \<and>
        last_check_time (update_stuck_detection t s sd) = check_time sd"
    if "sd_position s = Some c \<and> position sd = Some p"
  proof -
    from that have h: "sd_position s = Some c" "position sd = Some p" by simp_all
    from update_rolls[OF h, of t] show ?thesis by simp
  qed
  have first: "stuck_count (update_stuck_detection t s sd) = stuck_count sd \<and>
        is_stuck (update_stuck_detection t s sd) = is_stuck sd"
    if "sd_position s = Some c \<and> position sd = None"
  proof -
    from that have h: "sd_position s = Some c" "position sd = None" by simp_all
    from update_first[OF h, of t] show ?thesis by simp
  qed
  have three: "is_stuck (feed_samples sd [(t1, s1), (t2, s2), (t3, s3)]) \<and>
        stuck_count (feed_samples sd [(t1, s1), (t2, s2), (t3, s3)]) = stuck_count sd + 3 \<and>
        position (feed_samples sd [(t1, s1), (t2, s2), (t3, s3)]) = Some c3 \<and>
        (sd_position s4 = Some c4 \<and> 5 \<le> distance_moved c4 c3 \<longrightarrow>
           \<not> is_stuck (feed_samples sd [(t1, s1), (t2, s2), (t3, s3), (t4, s4)]))"
    if "position sd = Some p \<and> sd_position s1 = Some c1 \<and> sd_position s2 = Some c2 \<and>
      sd_position s3 = Some c3 \<and>
      distance_moved c1 p < 5 \<and> distance_moved c2 c1 < 5 \<and> distance_moved c3 c2 < 5"
  proof -
    define u1 where "u1 = update_stuck_detection t1 s1 sd"
    define u2 where "u2 = update_stuck_detection t2 s2 u1"
    define u3 where "u3 = update_stuck_detection t3 s3 u2"
    from that have p0: "position sd = Some p"
      and q1: "sd_position s1 = Some c1" and q2: "sd_position s2 = Some c2"
      and q3: "sd_position s3 = Some c3"
      and d1: "distance_moved c1 p < 5" and d2: "distance_moved c2 c1 < 5"
      and d3: "distance_moved c3 c2 < 5"
      by simp_all
    have p1: "position u1 = Some c1" unfolding u1_def by (rule update_stores(1)[OF q1])
    have p2: "position u2 = Some c2" unfolding u2_def by (rule update_stores(1)[OF q2])
    have p3: "position u3 = Some c3" unfolding u3_def by (rule update_stores(1)[OF q3])
    have c1: "stuck_count u1 = stuck_count sd + 1" unfolding u1_def by (rule update_low(1)[OF q1 p0 d1])
    have c2: "stuck_count u2 = stuck_count u1 + 1" unfolding u2_def by (rule update_low(1)[OF q2 p1 d2])
    have c3: "stuck_count u3 = stuck_count u2 + 1" unfolding u3_def by (rule update_low(1)[OF q3 p2 d3])
    have "is_stuck u3 = (is_stuck u2 \<or> 3 \<le> stuck_count u2 + 1)"
      unfolding u3_def by (rule update_low(2)[OF q3 p2 d3])
    moreover have "0 \<le> stuck_count sd" using inv by (simp add: stuck_inv_def)
    ultimately have s3: "is_stuck u3" using c1 c2 by simp
    have "\<not> is_stuck (update_stuck_detection t4 s4 u3)"
      if "sd_position s4 = Some c4 \<and> 5 \<le> distance_moved c4 c3"
    proof -
      from that have h4: "sd_position s4 = Some c4" "5 \<le> distance_moved c4 c3" by simp_all
      show ?thesis by (rule update_high(2)[OF h4(1) p3 h4(2)])
    qed
    with s3 p3 c1 c2 c3 show ?thesis by (simp add: u1_def u2_def u3_def)
  qed
  from low high stores rolls first three show ?thesis by blast
qed

text \<open>
  The theorem at work on a ship that creeps: after a first sample at (0, 0), the samples
  at (4, 0), (8, 0) and (12, 0) are each 4 units from the one before and set the flag with
  the counter at 3, and a sample at (22, 0) clears it.
\<close>

theorem stuck_detector_update_witness:
  "position (feed_samples (stuck_detection (init_agent 0 0)) [(2, pos_sample 0 0)]) = Some (0, 0) \<and>
   stuck_count (feed_samples (stuck_detection (init_agent 0 0)) [(2, pos_sample 0 0)]) = 0 \<and>
   distance_moved (4, 0) (0, 0) = 4 \<and> distance_moved (8, 0) (4, 0) = 4 \<and>
   distance_moved (12, 0) (8, 0) = 4 \<and> distance_moved (22, 0) (12, 0) = 10 \<and>
   position (update_stuck_detection 4 (pos_sample 4 0)
      (feed_samples (stuck_detection (init_agent 0 0)) [(2, pos_sample 0 0)])) = Some (4, 0) \<and>
   last_position (update_stuck_detection 4 (pos_sample 4 0)
      (feed_samples (stuck_detection (init_agent 0 0)) [(2, pos_sample 0 0)])) = Some (0, 0) \<and>
   stuck_count (update_stuck_detection 4 (pos_sample 4 0)
      (feed_samples (stuck_detection (init_agent 0 0)) [(2, pos_sample 0 0)])) = 1 \<and>
   \<not> is_stuck (update_stuck_detection 4 (pos_sample 4 0)
      (feed_samples (stuck_detection (init_agent 0 0)) [(2, pos_sample 0 0)])) \<and>
   stuck_count (update_stuck_detection 4 (pos_sample 10 0)
      (feed_samples (stuck_detection (init_agent 0 0)) [(2, pos_sample 0 0)])) = 0 \<and>
   is_stuck (feed_samples (feed_samples (stuck_detection (init_agent 0 0)) [(2, pos_sample 0 0)])
      [(4, pos_sample 4 0), (6, pos_sample 8 0), (8, pos_sample 12 0)]) \<and>
   stuck_count (feed_samples (feed_samples (stuck_detection (init_agent 0 0)) [(2, pos_sample 0 0)])
      [(4, pos_sample 4 0), (6, pos_sample 8 0), (8, pos_sample 12 0)]) = 3 \<and>
   \<not> is_stuck (feed_samples (feed_samples (stuck_detection (init_agent 0 0)) [(2, pos_sample 0 0)])
      [(4, pos_sample 4 0), (6, pos_sample 8 0), (8, pos_sample 12 0), (10, pos_sample 22 0)])"
proof -
  define sd where "sd = feed_samples (stuck_detection (init_agent 0 0)) [(2, pos_sample 0 0)]"
  have sd: "sd = \<lparr>position = Some (0, 0), last_position = Some (0, 0), check_time = 2,
      last_check_time = 2, is_stuck = False, stuck_count = 0, escape_direction = 1\<rparr>"
    by (simp add: sd_def init_agent_def update_stuck_detection_def pos_sample_def)
  have p0: "position sd = Some (0, 0)" and c0: "stuck_count sd = 0" by (simp_all add: sd)
  have q: "sd_position (pos_sample a b) = Some (a, b)" for a b by (simp add: pos_sample_def)
  have d1: "distance_moved (4, 0) (0, 0) = 4" by (simp add: distance_moved_def sqrt_16)
  have d2: "distance_moved (8, 0) (4, 0) = 4" by (simp add: distance_moved_def sqrt_16)
  have d3: "distance_moved (12, 0) (8, 0) = 4" by (simp add: distance_moved_def sqrt_16)
  have d4: "distance_moved (22, 0) (12, 0) = 10" by (simp add: distance_moved_def sqrt_100)
  have dh: "distance_moved (10, 0) (0, 0) = 10" by (simp add: distance_moved_def sqrt_100)
  note low = stuck_detector_update[OF sd_def, of "pos_sample 4 0" "(4, 0)" "(0, 0)" 4]
  note high = stuck_detector_update[OF sd_def, of "pos_sample 10 0" "(10, 0)" "(0, 0)" 4]
  note run = stuck_detector_update[OF sd_def, of _ _ "(0, 0)" _
      "pos_sample 4 0" "(4, 0)" "pos_sample 8 0" "(8, 0)" "pos_sample 12 0" "(12, 0)" 4 6 8
      "pos_sample 22 0" "(22, 0)" 10]
  have a: "position (update_stuck_detection 4 (pos_sample 4 0) sd) = Some (4, 0) \<and>
           last_position (update_stuck_detection 4 (pos_sample 4 0) sd) = Some (0, 0) \<and>
           stuck_count (update_stuck_detection 4 (pos_sample 4 0) sd) = 1 \<and>
           \<not> is_stuck (update_stuck_detection 4 (pos_sample 4 0) sd)"
    using low q[of 4 0] p0 c0 d1 by simp
  have b: "stuck_count (update_stuck_detection 4 (pos_sample 10 0) sd) = 0"
    using high q[of 10 0] p0 c0 dh by simp
  have c: "is_stuck (feed_samples sd [(4, pos_sample 4 0), (6, pos_sample 8 0), (8, pos_sample 12 0)]) \<and>
     stuck_count (feed_samples sd [(4, pos_sample 4 0), (6, pos_sample 8 0), (8, pos_sample 12 0)]) = 3 \<and>
     \<not> is_stuck (feed_samples sd [(4, pos_sample 4 0), (6, pos_sample 8 0), (8, pos_sample 12 0), (10, pos_sample 22 0)])"
    using run q[of 4 0] q[of 8 0] q[of 12 0] q[of 22 0] p0 c0 d1 d2 d3 d4 by simp
  from a b c p0 c0 d1 d2 d3 d4 show ?thesis unfolding sd_def by blast
qed

text \<open>
  The first position sample of a new agent has no sample before it and only initialises
  the detector: after three position samples at one place the counter is 2 and the flag
  is still clear.
\<close>

lemma new_agent_three_position_samples:
  "stuck_count (feed_samples (stuck_detection (init_agent 0 0))
      [(2, pos_sample 0 0), (4, pos_sample 0 0), (6, pos_sample 0 0)]) = 2 \<and>
   \<not> is_stuck (feed_samples (stuck_detection (init_agent 0 0))
      [(2, pos_sample 0 0), (4, pos_sample 0 0), (6, pos_sample 0 0)])"
  by (simp add: init_agent_def update_stuck_detection_def stuck_compare_def pos_sample_def Let_def)

subsection \<open>Plain dictionaries never trip the stuck detector\<close>

lemma engage_enemy_stuck: "stuck_detection (snd (engage_enemy e obj a)) = stuck_detection a"
  by (simp add: engage_enemy_def Let_def)

lemma collect_coin_stuck: "stuck_detection (snd (collect_coin e obj a)) = stuck_detection a"
  by (simp add: collect_coin_def Let_def)

lemma follow_or_explore_stuck: "stuck_detection (snd (follow_or_explore e a)) = stuck_detection a"
  by (simp add: follow_or_explore_def Let_def split: option.splits)

lemma target_rules_stuck: "stuck_detection (snd (target_rules e s a)) = stuck_detection a"
  by (simp add: target_rules_def Let_def split_beta engage_enemy_stuck collect_coin_stuck
      follow_or_explore_stuck)

lemma stuck_phase_plain:
  assumes "plain_dict s" "agent_unstuck a"
  shows "agent_unstuck (stuck_phase e s a)"
  using assms
  by (simp add: plain_dict_def agent_unstuck_def stuck_phase_def update_stuck_detection_def)

lemma decide_plain_keeps:
  assumes "plain_dict s" "agent_unstuck a"
  shows "agent_unstuck (snd (decide_from_sensors e s a))"
proof (cases "sensor_empty s")
  case True
  then show ?thesis using assms(2) by (simp add: decide_from_sensors_def)
next
  case False
  define a1 where "a1 = stuck_phase e s a"
  have u: "agent_unstuck a1" unfolding a1_def by (rule stuck_phase_plain[OF assms])
  then have ns: "\<not> is_stuck (stuck_detection a1)" by (simp add: agent_unstuck_def)
  show ?thesis
  proof (cases "wall_rules e s a1")
    case None
    then have "snd (decide_from_sensors e s a) = snd (target_rules e s a1)"
      using False ns by (simp add: decide_from_sensors_def a1_def Let_def)
    then show ?thesis using u target_rules_stuck[of e s a1] by (simp add: agent_unstuck_def)
  next
    case (Some r)
    then have "snd (decide_from_sensors e s a) = a1"
      using False ns by (simp add: decide_from_sensors_def a1_def Let_def)
    then show ?thesis using u by simp
  qed
qed

lemma run_plain_keeps:
  assumes "list_all (\<lambda>c. plain_dict (snd c)) calls" "agent_unstuck a"
  shows "agent_unstuck (run_decide a calls)"
  using assms
proof (induction calls arbitrary: a)
  case Nil
  then show ?case by simp
next
  case (Cons c calls)
  obtain e s where c: "c = (e, s)" by (cases c)
  from Cons.prems c have "plain_dict s" by simp
  from decide_plain_keeps[OF this Cons.prems(2), of e] Cons show ?case by (simp add: c)
qed

lemma init_unstuck: "agent_unstuck (init_agent idx t0)"
  by (simp add: agent_unstuck_def init_agent_def)

text \<open>
  C9. After any sequence of calls of \<^verbatim>\<open>decide_from_sensors\<close> on plain dictionaries,
  starting from a new agent, the flag is clear and the counter is 0; in a further call
  on a plain dictionary the flag is still clear where the escape branch tests it, so that
  branch is not taken.
\<close>

theorem plain_dict_never_stuck:
  assumes "list_all (\<lambda>c. plain_dict (snd c)) calls"
  shows "\<not> is_stuck (stuck_detection (run_decide (init_agent idx t0) calls)) \<and>
         stuck_count (stuck_detection (run_decide (init_agent idx t0) calls)) = 0 \<and>
         (plain_dict s \<longrightarrow>
            \<not> is_stuck (stuck_detection (stuck_phase e s (run_decide (init_agent idx t0) calls))))"
proof -
  have u: "agent_unstuck (run_decide (init_agent idx t0) calls)"
    by (rule run_plain_keeps[OF assms init_unstuck])
  have "\<not> is_stuck (stuck_detection (stuck_phase e s (run_decide (init_agent idx t0) calls)))"
    if "plain_dict s"
    using stuck_phase_plain[OF that u, of e] by (simp add: agent_unstuck_def)
  with u show ?thesis by (simp add: agent_unstuck_def)
qed

text \<open>The theorem at work on three calls, one of them with a wall ahead.\<close>

theorem plain_dict_never_stuck_witness:
  "list_all (\<lambda>c. plain_dict (snd c))
     [(env0 2, dict_reading False None []), (env0 4, dict_reading True (Some 10) []),
      (env0 6, dict_reading False None [])] \<and>
   \<not> is_stuck (stuck_detection (run_decide (init_agent 0 0)
     [(env0 2, dict_reading False None []), (env0 4, dict_reading True (Some 10) []),
      (env0 6, dict_reading False None [])])) \<and>
   stuck_count (stuck_detection (run_decide (init_agent 0 0)
     [(env0 2, dict_reading False None []), (env0 4, dict_reading True (Some 10) []),
      (env0 6, dict_reading False None [])])) = 0 \<and>
   plain_dict (dict_reading False None []) \<and>
   \<not> is_stuck (stuck_detection (stuck_phase (env0 8) (dict_reading False None [])
     (run_decide (init_agent 0 0)
       [(env0 2, dict_reading False None []), (env0 4, dict_reading True (Some 10) []),
        (env0 6, dict_reading False None [])])))"
proof -
  have p: "plain_dict (dict_reading hit ld objs)" for hit ld objs
    by (simp add: plain_dict_def dict_reading_def)
  have l: "list_all (\<lambda>c. plain_dict (snd c))
     [(env0 2, dict_reading False None []), (env0 4, dict_reading True (Some 10) []),
      (env0 6, dict_reading False None [])]"
    by (simp add: p)
  from plain_dict_never_stuck[OF l, of 0 0 "dict_reading False None []" "env0 8"] l p
  show ?thesis by blast
qed

subsection \<open>Enemies before coins\<close>

lemma hd_sort_key_nearest:
  assumes "xs \<noteq> []"
  shows "hd (sort_key f xs) \<in> set xs \<and> (\<forall>x\<in>set xs. f (hd (sort_key f xs)) \<le> f x)"
proof -
  obtain y ys where ys: "sort_key f xs = y # ys"
    using assms by (cases "sort_key f xs") (auto dest: arg_cong[where f = length])
  have "sorted (map f (y # ys))" unfolding ys[symmetric] by (rule sorted_sort_key)
  then have "\<forall>x\<in>set (y # ys). f y \<le> f x" by auto
  moreover have "set (y # ys) = set xs" unfolding ys[symmetric] by simp
  ultimately have "y \<in> set xs \<and> (\<forall>x\<in>set xs. f y \<le> f x)" by auto
  then show ?thesis by (simp add: ys)
qed

lemma tm_type_engage: "tm_type (target_memory (snd (engage_enemy e obj a))) = Some ''enemy''"
  by (simp add: engage_enemy_def Let_def)

lemma tm_type_collect: "tm_type (target_memory (snd (collect_coin e obj a))) = Some ''coin''"
  by (simp add: collect_coin_def Let_def)

text \<open>
  C3. When the reading is not empty, the stuck flag is clear and no wall rule returns,
  and the radar lists an enemy and a coin, the method returns the command and the memory
  of the enemy branch for the nearest enemy, which differs from what the coin branch
  would return; the distances of the coins play no part.
\<close>

theorem enemies_preempt_coins:
  assumes "\<not> sensor_empty s"
    and "\<not> is_stuck (stuck_detection (stuck_phase e s a))"
    and "wall_rules e s (stuck_phase e s a) = None"
    and "enemy \<in> set (radar_list s)" and "obj_type enemy = ''enemy''"
    and "coin \<in> set (radar_list s)" and "obj_type coin = ''coin''"
  shows "decide_from_sensors e s a =
           (Inr (fst (engage_enemy e (hd (sort_key obj_distance (enemies_of s))) (stuck_phase e s a))),
            snd (engage_enemy e (hd (sort_key obj_distance (enemies_of s))) (stuck_phase e s a))) \<and>
         decide_from_sensors e s a \<noteq>
           (Inr (fst (collect_coin e (hd (sort_key obj_distance (coins_of s))) (stuck_phase e s a))),
            snd (collect_coin e (hd (sort_key obj_distance (coins_of s))) (stuck_phase e s a))) \<and>
         tm_type (target_memory (snd (decide_from_sensors e s a))) = Some ''enemy'' \<and>
         hd (sort_key obj_distance (enemies_of s)) \<in> set (enemies_of s) \<and>
         (\<forall>x\<in>set (enemies_of s). obj_distance (hd (sort_key obj_distance (enemies_of s))) \<le> obj_distance x)"
proof -
  have ne: "enemies_of s \<noteq> []"
    using assms(4,5) by (auto simp: enemies_of_def filter_empty_conv)
  have eq: "decide_from_sensors e s a =
           (Inr (fst (engage_enemy e (hd (sort_key obj_distance (enemies_of s))) (stuck_phase e s a))),
            snd (engage_enemy e (hd (sort_key obj_distance (enemies_of s))) (stuck_phase e s a)))"
    using assms(1-3) ne by (simp add: decide_from_sensors_def target_rules_def Let_def split_beta)
  have ty: "tm_type (target_memory (snd (decide_from_sensors e s a))) = Some ''enemy''"
    unfolding eq by (simp add: tm_type_engage)
  have "tm_type (target_memory (snd (Inr (fst (collect_coin e (hd (sort_key obj_distance (coins_of s))) (stuck_phase e s a))) :: py_error + command,
            snd (collect_coin e (hd (sort_key obj_distance (coins_of s))) (stuck_phase e s a))))) = Some ''coin''"
    by (simp add: tm_type_collect)
  with ty have neq: "decide_from_sensors e s a \<noteq>
           (Inr (fst (collect_coin e (hd (sort_key obj_distance (coins_of s))) (stuck_phase e s a))),
            snd (collect_coin e (hd (sort_key obj_distance (coins_of s))) (stuck_phase e s a)))"
    by auto
  from eq neq ty hd_sort_key_nearest[OF ne, of obj_distance] show ?thesis by blast
qed

text \<open>
  The theorem at work on the reading of the specification: a coin at distance 30 and
  an enemy at distance 40. The agent backs away from the enemy and shoots.
\<close>

theorem enemies_preempt_coins_witness:
  "\<not> sensor_empty (dict_reading False None [mk_obj ''coin'' 30 10, mk_obj ''enemy'' 40 5]) \<and>
   \<not> is_stuck (stuck_detection (stuck_phase (env0 2)
        (dict_reading False None [mk_obj ''coin'' 30 10, mk_obj ''enemy'' 40 5]) (init_agent 0 0))) \<and>
   wall_rules (env0 2) (dict_reading False None [mk_obj ''coin'' 30 10, mk_obj ''enemy'' 40 5])
     (stuck_phase (env0 2) (dict_reading False None [mk_obj ''coin'' 30 10, mk_obj ''enemy'' 40 5])
        (init_agent 0 0)) = None \<and>
   fst (decide_from_sensors (env0 2)
        (dict_reading False None [mk_obj ''coin'' 30 10, mk_obj ''enemy'' 40 5]) (init_agent 0 0)) =
     Inr \<lparr>cmd_rotate = 1, cmd_thrust = - 0.5, cmd_shoot = True\<rparr> \<and>
   tm_type (target_memory (snd (decide_from_sensors (env0 2)
        (dict_reading False None [mk_obj ''coin'' 30 10, mk_obj ''enemy'' 40 5]) (init_agent 0 0)))) =
     Some ''enemy''"
proof -
  define s where "s = dict_reading False None [mk_obj ''coin'' 30 10, mk_obj ''enemy'' 40 5]"
  have h1: "\<not> sensor_empty s" by (simp add: s_def sensor_empty_def dict_reading_def)
  have h2: "\<not> is_stuck (stuck_detection (stuck_phase (env0 2) s (init_agent 0 0)))"
    by (simp add: s_def stuck_phase_def env0_def init_agent_def dict_reading_def update_stuck_detection_def)
  have h3: "wall_rules (env0 2) s (stuck_phase (env0 2) s (init_agent 0 0)) = None"
    by (simp add: s_def wall_rules_def get_laser_hit_def dict_reading_def)
  have h4: "mk_obj ''enemy'' 40 5 \<in> set (radar_list s)" "obj_type (mk_obj ''enemy'' 40 5) = ''enemy''"
    by (simp_all add: s_def radar_list_def dict_reading_def mk_obj_def)
  have h5: "mk_obj ''coin'' 30 10 \<in> set (radar_list s)" "obj_type (mk_obj ''coin'' 30 10) = ''coin''"
    by (simp_all add: s_def radar_list_def dict_reading_def mk_obj_def)
  have en: "enemies_of s = [mk_obj ''enemy'' 40 5]"
    by (simp add: s_def enemies_of_def radar_list_def dict_reading_def mk_obj_def)
  note t = enemies_preempt_coins[OF h1 h2 h3 h4 h5]
  have "fst (decide_from_sensors (env0 2) s (init_agent 0 0)) =
     Inr \<lparr>cmd_rotate = 1, cmd_thrust = - 0.5, cmd_shoot = True\<rparr>"
    using t by (simp add: en engage_enemy_def mk_obj_def calculate_turn_rate_def Let_def)
  moreover have "tm_type (target_memory (snd (decide_from_sensors (env0 2) s (init_agent 0 0)))) = Some ''enemy''"
    using t by blast
  ultimately show ?thesis using h1 h2 h3 unfolding s_def by blast
qed

subsection \<open>The exception handlers\<close>

text \<open>
  C5. Whatever the input, the method \<^verbatim>\<open>decide\<close> and the endpoint \<^verbatim>\<open>/decide/\<close>
  return a command and no exception: the neutral command when the computation raised,
  and the command it computed otherwise.
\<close>

theorem decision_never_raises:
  "fst (decide e game_state walls a) =
     Inr (case fst (decide_body e game_state walls a) of Inl err \<Rightarrow> neutral_command | Inr c \<Rightarrow> c) \<and>
   fst (decide_endpoint sense e game_data a) =
     Inr (case fst (decide_endpoint_body sense e game_data a) of Inl err \<Rightarrow> neutral_command | Inr c \<Rightarrow> c)"
proof -
  have "fst (decide e game_state walls a) =
     Inr (case fst (decide_body e game_state walls a) of Inl err \<Rightarrow> neutral_command | Inr c \<Rightarrow> c)"
    by (cases "decide_body e game_state walls a") (auto simp: decide_def split: sum.splits)
  moreover have "fst (decide_endpoint sense e game_data a) =
     Inr (case fst (decide_endpoint_body sense e game_data a) of Inl err \<Rightarrow> neutral_command | Inr c \<Rightarrow> c)"
    by (cases "decide_endpoint_body sense e game_data a") (auto simp: decide_endpoint_def split: sum.splits)
  ultimately show ?thesis by blast
qed

text \<open>
  The theorem at work on three inputs that make the computation raise: None as the game
  state, a laser hit without a distance, and a ship index beyond the list of ships.
\<close>

theorem decision_never_raises_witness:
  "fst (decide_body (env0 2) None [] (init_agent 0 0)) = Inl TypeError \<and>
   fst (decide (env0 2) None [] (init_agent 0 0)) = Inr neutral_command \<and>
   fst (decide_body (env0 2)
         (Some \<lparr>gd_sensor = dict_reading True None [], gd_ships = None\<rparr>) [] (init_agent 0 0)) = Inl TypeError \<and>
   fst (decide (env0 2)
         (Some \<lparr>gd_sensor = dict_reading True None [], gd_ships = None\<rparr>) [] (init_agent 0 0)) = Inr neutral_command \<and>
   fst (decide_endpoint_body sense_failed (env0 2) \<lparr>gdata_ship_id = Some 3, gdata_ships = Some []\<rparr> (init_agent 0 0)) =
     Inl IndexError \<and>
   fst (decide_endpoint sense_failed (env0 2) \<lparr>gdata_ship_id = Some 3, gdata_ships = Some []\<rparr> (init_agent 0 0)) =
     Inr neutral_command"
proof -
  have b1: "fst (decide_body (env0 2) None [] (init_agent 0 0)) = Inl TypeError"
    by (simp add: decide_body_def)
  have b2: "fst (decide_body (env0 2)
         (Some \<lparr>gd_sensor = dict_reading True None [], gd_ships = None\<rparr>) [] (init_agent 0 0)) = Inl TypeError"
    by (simp add: decide_body_def decide_from_sensors_def dict_reading_def sensor_empty_def
        stuck_phase_def env0_def init_agent_def update_stuck_detection_def wall_rules_def
        get_laser_hit_def get_laser_distance_def Let_def)
  have b3: "fst (decide_endpoint_body sense_failed (env0 2) \<lparr>gdata_ship_id = Some 3, gdata_ships = Some []\<rparr> (init_agent 0 0)) =
     Inl IndexError"
    by (simp add: decide_endpoint_body_def dict_get_def py_index_def Let_def)
  note t1 = decision_never_raises[of "env0 2" None "[]" "init_agent 0 0" sense_failed
      "\<lparr>gdata_ship_id = Some 3, gdata_ships = Some []\<rparr>"]
  note t2 = decision_never_raises[of "env0 2"
      "Some \<lparr>gd_sensor = dict_reading True None [], gd_ships = None\<rparr>" "[]" "init_agent 0 0" sense_failed
      "\<lparr>gdata_ship_id = Some 3, gdata_ships = Some []\<rparr>"]
  from t1 t2 b1 b2 b3 show ?thesis by simp
qed

section \<open>Properties of the engine\<close>

subsection \<open>The patrol state machine\<close>

lemma patrol_forward_stays:
  assumes "patrol_state enemy = PATROL_STATE_FORWARD" "\<not> fst (patrol_movement d walls enemy)"
    "\<not> pd_transition d < 0.01"
  shows "patrol_state (snd (patrol_movement d walls enemy)) = PATROL_STATE_FORWARD"
  using assms
  by (simp add: patrol_movement_def patrol_forward_def thrust_def rotate_def Let_def)

text \<open>
  C6. An enemy in the state FORWARD stays in it over any number of consecutive calls
  of \<^verbatim>\<open>patrol_movement\<close>, 1000 among them, when the probe finds no wall in any of the
  calls and no draw for the transition is below 0.01, so that the transition never
  succeeds. The timer may have any value at the start, below 180 or not.
\<close>

theorem patrol_never_leaves_forward:
  assumes "patrol_state enemy = PATROL_STATE_FORWARD"
    and "probes_clear enemy walls ds"
    and "list_all (\<lambda>d. \<not> pd_transition d < 0.01) ds"
  shows "list_all (\<lambda>s. patrol_state s = PATROL_STATE_FORWARD) (patrol_trace enemy walls ds)"
  using assms
proof (induction ds arbitrary: enemy)
  case Nil
  then show ?case by simp
next
  case (Cons d ds)
  from Cons.prems have clear: "\<not> fst (patrol_movement d walls enemy)"
    and rest: "probes_clear (snd (patrol_movement d walls enemy)) walls ds"
    and nd: "\<not> pd_transition d < 0.01" and nds: "list_all (\<lambda>d. \<not> pd_transition d < 0.01) ds"
    by simp_all
  have f: "patrol_state (snd (patrol_movement d walls enemy)) = PATROL_STATE_FORWARD"
    by (rule patrol_forward_stays[OF Cons.prems(1) clear nd])
  from Cons.IH[OF f rest nds] f show ?case by simp
qed

lemma heading_east_probe:
  assumes "heading_east s"
  shows "\<not> wall_ahead (s\<lparr>patrol_timer := t\<rparr>) [patrol_wall]"
  using assms
  by (simp add: heading_east_def wall_ahead_def radians_def Rect_def py_int_def colliderect_def
      patrol_wall_def Let_def)

lemma heading_east_step:
  assumes "heading_east s"
  shows "\<not> fst (patrol_movement quiet_draws [patrol_wall] s)"
    and "heading_east (snd (patrol_movement quiet_draws [patrol_wall] s))"
proof -
  have p: "\<not> wall_ahead (s\<lparr>patrol_timer := patrol_timer s + 1\<rparr>) [patrol_wall]"
    by (rule heading_east_probe[OF assms])
  then show "\<not> fst (patrol_movement quiet_draws [patrol_wall] s)"
    by (simp add: patrol_movement_def Let_def)
  from assms p show "heading_east (snd (patrol_movement quiet_draws [patrol_wall] s))"
    by (simp add: patrol_movement_def patrol_forward_def heading_east_def thrust_def rotate_def
        mod360_def quiet_draws_def Let_def)
qed

lemma heading_east_clear:
  "heading_east s \<Longrightarrow> probes_clear s [patrol_wall] (replicate n quiet_draws)"
  by (induction n arbitrary: s) (simp_all add: heading_east_step)

text \<open>
  The theorem at work: an enemy at (400, 400) heading 0 with timer 0, one wall of the
  labyrinth far ahead of the probe, and 1000 calls.
\<close>

theorem patrol_never_leaves_forward_witness:
  "patrol_state (SpaceObject 400 400 0 100) = PATROL_STATE_FORWARD \<and>
   patrol_timer (SpaceObject 400 400 0 100) < 180 \<and>
   length (replicate 1000 quiet_draws) = 1000 \<and>
   probes_clear (SpaceObject 400 400 0 100) [patrol_wall] (replicate 1000 quiet_draws) \<and>
   list_all (\<lambda>d. \<not> pd_transition d < 0.01) (replicate 1000 quiet_draws) \<and>
   list_all (\<lambda>s. patrol_state s = PATROL_STATE_FORWARD)
     (patrol_trace (SpaceObject 400 400 0 100) [patrol_wall] (replicate 1000 quiet_draws))"
proof -
  have e: "heading_east (SpaceObject 400 400 0 100)"
    by (simp add: heading_east_def SpaceObject_def)
  have f: "patrol_state (SpaceObject 400 400 0 100) = PATROL_STATE_FORWARD"
    and t: "patrol_timer (SpaceObject 400 400 0 100) < 180"
    by (simp_all add: SpaceObject_def)
  have c: "probes_clear (SpaceObject 400 400 0 100) [patrol_wall] (replicate 1000 quiet_draws)"
    by (rule heading_east_clear[OF e])
  have d: "list_all (\<lambda>d. \<not> pd_transition d < 0.01) (replicate 1000 quiet_draws)"
    by (simp add: list_all_iff quiet_draws_def)
  from patrol_never_leaves_forward[OF f c d] f t c d show ?thesis by simp
qed

lemma patrol_trace_length: "length (patrol_trace enemy walls ds) = length ds"
  by (induction ds arbitrary: enemy) simp_all

subsection \<open>Replacements and score in one update\<close>

lemma hp_update_position: "so_hp (update_position is_enemy s) = so_hp s"
  by (simp add: update_position_def Let_def)

lemma hp_bounce: "so_hp (bounce r w s) = so_hp s"
  by (simp add: bounce_def Let_def)

lemma hp_foldl_bounce: "so_hp (foldl (\<lambda>acc wall. bounce r wall acc) s ws) = so_hp s"
  by (induction ws arbitrary: s) (simp_all add: hp_bounce)

lemma hp_check_wall_collision: "so_hp (check_wall_collision walls others s) = so_hp s"
  by (simp add: check_wall_collision_def Let_def hp_foldl_bounce)

lemma update_ships_new:
  "snd (update_ships walls sp1 sp2 i kept todo new_ships) =
     new_ships @ (if i \<le> 1 \<and> 1 - i < length todo \<and> so_hp (todo ! (1 - i)) \<le> 0
                  then [spawn_ship sp1, spawn_ship sp2] else [])"
proof (induction todo arbitrary: i kept new_ships)
  case Nil
  then show ?case by simp
next
  case (Cons ship rest)
  have hp: "so_hp (check_wall_collision walls (kept @ rest) (update_position (i = 1) ship)) = so_hp ship"
    by (simp add: hp_check_wall_collision hp_update_position)
  consider "i = 0" | "i = 1" | "2 \<le> i" by linarith
  then show ?case
  proof cases
    case 1
    then show ?thesis using hp Cons.IH[of "Suc 0"] by (simp add: Let_def)
  next
    case 2
    then show ?thesis using hp Cons.IH[of "Suc (Suc 0)"] by (simp add: Let_def)
  next
    case 3
    then show ?thesis using hp Cons.IH[of "Suc i"] by (simp add: Let_def)
  qed
qed

lemma update_ships_kept_length:
  "length (fst (update_ships walls sp1 sp2 i kept todo new_ships)) =
     length kept + length (filter (\<lambda>s. 0 < so_hp s) todo)"
proof (induction todo arbitrary: i kept new_ships)
  case Nil
  then show ?case by simp
next
  case (Cons ship rest)
  have hp: "so_hp (check_wall_collision walls (kept @ rest) (update_position (i = 1) ship)) = so_hp ship"
    by (simp add: hp_check_wall_collision hp_update_position)
  show ?case
  proof (cases "so_hp ship \<le> 0")
    case True
    then show ?thesis using hp Cons.IH by (simp add: Let_def)
  next
    case False
    then show ?thesis using hp Cons.IH by (simp add: Let_def)
  qed
qed

lemma hit_ships_length: "length (fst (hit_ships b i ships sc hit)) = length ships"
  by (induction ships arbitrary: i sc hit) (simp_all add: Let_def split_beta)

lemma hit_ships_nth:
  "j < length ships \<Longrightarrow>
   fst (hit_ships b i ships sc hit) ! j =
     (if int (i + j) \<noteq> bullet_owner b \<and> collides b (ships ! j)
      then (ships ! j)\<lparr>so_hp := so_hp (ships ! j) - 10\<rparr> else ships ! j)"
proof (induction ships arbitrary: i j sc hit)
  case Nil
  then show ?case by simp
next
  case (Cons ship rest)
  show ?case
  proof (cases j)
    case 0
    then show ?thesis by (simp add: Let_def split_beta)
  next
    case (Suc k)
    with Cons.prems have k: "k < length rest" by simp
    show ?thesis using Cons.IH[OF k, of "Suc i"] Suc by (simp add: Let_def split_beta)
  qed
qed

lemma hit_ships_score:
  "fst (snd (hit_ships b i ships sc hit)) =
     (if i \<le> 1 \<and> 1 - i < length ships \<and> bullet_owner b \<noteq> 1 \<and> collides b (ships ! (1 - i)) \<and>
         so_hp (ships ! (1 - i)) - 10 \<le> 0
      then (fst sc + 10, snd sc) else sc)"
proof (induction ships arbitrary: i sc hit)
  case Nil
  then show ?case by simp
next
  case (Cons ship rest)
  consider "i = 0" | "i = 1" | "2 \<le> i" by linarith
  then show ?case
  proof cases
    case 1
    then show ?thesis using Cons.IH[of "Suc 0"] by (simp add: Let_def split_beta)
  next
    case 2
    then show ?thesis using Cons.IH[of "Suc (Suc 0)"] by (simp add: Let_def split_beta)
  next
    case 3
    then show ?thesis using Cons.IH[of "Suc i"] by (simp add: Let_def split_beta)
  qed
qed

lemma worn_refl: "worn ships ships"
  by (simp add: worn_def)

lemma worn_trans: "worn a b \<Longrightarrow> worn b c \<Longrightarrow> worn a c"
  unfolding worn_def by (auto intro: order_trans)

lemma worn_hit_ships: "worn ships (fst (hit_ships b i ships sc hit))"
  by (simp add: worn_def hit_ships_length hit_ships_nth)

lemma collides_worn:
  assumes "worn ships ships1" "j < length ships"
  shows "collides b (ships1 ! j) = collides b (ships ! j)"
  using assms by (simp add: worn_def collides_def)

lemma bullets_loop_props:
  "worn ships (fst (bullets_loop walls bs ships sc new_bullets)) \<and>
   snd (fst (snd (bullets_loop walls bs ships sc new_bullets))) = snd sc \<and>
   (fst (fst (snd (bullets_loop walls bs ships sc new_bullets))) \<noteq> fst sc \<longrightarrow>
      1 < length ships \<and> so_hp (fst (bullets_loop walls bs ships sc new_bullets) ! 1) \<le> 0 \<and>
      (\<exists>b\<in>set bs. bullet_owner b \<noteq> 1 \<and> collides b (ships ! 1)))"
proof (induction bs arbitrary: ships sc new_bullets)
  case Nil
  then show ?case by (simp add: worn_refl)
next
  case (Cons b bs)
  define r where "r = hit_ships b 0 ships sc (bullet_hits_wall b walls)"
  define ships1 where "ships1 = fst r"
  define sc1 where "sc1 = fst (snd r)"
  define nb where "nb = (if \<not> snd (snd r) \<and> bullet_lifespan b > 0 then new_bullets @ [b] else new_bullets)"
  define res where "res = bullets_loop walls bs ships1 sc1 nb"
  have step: "bullets_loop walls (b # bs) ships sc new_bullets = res"
    by (simp add: res_def ships1_def sc1_def nb_def r_def split_beta)
  have w1: "worn ships ships1" unfolding ships1_def r_def by (rule worn_hit_ships)
  have s1: "sc1 = (if 1 < length ships \<and> bullet_owner b \<noteq> 1 \<and> collides b (ships ! 1) \<and>
         so_hp (ships ! 1) - 10 \<le> 0 then (fst sc + 10, snd sc) else sc)"
    unfolding sc1_def r_def using hit_ships_score[of b 0 ships sc] by simp
  note ih = Cons.IH[of ships1 sc1 nb, folded res_def]
  from ih have w2: "worn ships1 (fst res)" by simp
  have w: "worn ships (fst res)" by (rule worn_trans[OF w1 w2])
  have snd_eq: "snd (fst (snd res)) = snd sc" using ih s1 by (simp split: if_splits)
  have imp: "1 < length ships \<and> so_hp (fst res ! 1) \<le> 0 \<and>
      (\<exists>b'\<in>set (b # bs). bullet_owner b' \<noteq> 1 \<and> collides b' (ships ! 1))"
    if ne: "fst (fst (snd res)) \<noteq> fst sc"
  proof (cases "fst (fst (snd res)) = fst sc1")
    case True
    with ne have c: "sc1 \<noteq> sc" by auto
    with s1 have cond: "1 < length ships" "bullet_owner b \<noteq> 1" "collides b (ships ! 1)"
      "so_hp (ships ! 1) - 10 \<le> 0"
      by (auto split: if_splits)
    have "ships1 ! 1 = (ships ! 1)\<lparr>so_hp := so_hp (ships ! 1) - 10\<rparr>"
      unfolding ships1_def r_def using hit_ships_nth[of 1 ships b 0 sc] cond by simp
    then have "so_hp (ships1 ! 1) \<le> 0" using cond(4) by simp
    moreover have "so_hp (fst res ! 1) \<le> so_hp (ships1 ! 1)"
      using w2 w1 cond(1) by (simp add: worn_def)
    ultimately have "so_hp (fst res ! 1) \<le> 0" by linarith
    with cond show ?thesis by auto
  next
    case False
    with ih have h: "1 < length ships1" "so_hp (fst res ! 1) \<le> 0"
      "\<exists>b'\<in>set bs. bullet_owner b' \<noteq> 1 \<and> collides b' (ships1 ! 1)" by simp_all
    from h(1) w1 have l: "1 < length ships" by (simp add: worn_def)
    from h(3) collides_worn[OF w1 l] have "\<exists>b'\<in>set bs. bullet_owner b' \<noteq> 1 \<and> collides b' (ships ! 1)"
      by simp
    with l h(2) show ?thesis by auto
  qed
  show ?case unfolding step using w snd_eq imp by blast
qed

lemma ships_after_removal_length:
  "length (ships_after_removal walls sp1 sp2 ships) =
     length (filter (\<lambda>s. 0 < so_hp s) ships) +
     (if 1 < length ships \<and> so_hp (ships ! 1) \<le> 0 then 2 else 0)"
  using update_ships_new[of walls sp1 sp2 0 "[]" ships "[]"]
    update_ships_kept_length[of walls sp1 sp2 0 "[]" ships "[]"]
  by (simp add: ships_after_removal_def split_beta)

lemma update_ships_eq:
  "eng_ships (update walls sp1 sp2 eng) =
     fst (bullets_loop walls (map bullet_update (eng_bullets eng))
            (ships_after_removal walls sp1 sp2 (eng_ships eng)) (eng_score eng) [])"
  by (simp add: update_def Let_def split_beta)

lemma update_score_eq:
  "eng_score (update walls sp1 sp2 eng) =
     fst (snd (bullets_loop walls (map bullet_update (eng_bullets eng))
            (ships_after_removal walls sp1 sp2 (eng_ships eng)) (eng_score eng) []))"
  by (simp add: update_def Let_def split_beta)

lemma collides_iff:
  "collides b ship = ((bullet_x b - so_x ship)\<^sup>2 + (bullet_y b - so_y ship)\<^sup>2 < 225)"
proof -
  have "sqrt 225 = 15" by (rule real_sqrt_unique) auto
  then have "sqrt a < 15 \<longleftrightarrow> a < 225" for a :: real
    using real_sqrt_less_iff[of a 225] by simp
  then show ?thesis by (simp add: collides_def)
qed

lemma bullets_loop_single:
  "fst (snd (bullets_loop walls [b] ships sc new_bullets)) =
     fst (snd (hit_ships b 0 ships sc (bullet_hits_wall b walls)))"
  by (simp add: split_beta)

text \<open>
  C10. In one update of the engine, two enemies are queued exactly when the ship at
  index 1 of the list has no hit points left, so that the list afterwards holds the ships
  that stay and two more in that case only; a bullet adds 10 points to the first score
  exactly when it hits the ship at index 1, is not owned by it, and leaves it without hit
  points; the second score never changes; and when the first score has changed, the ship
  at index 1 has no hit points left and a bullet not its own has hit it. A ship at
  another index adds neither enemies nor points.
\<close>

theorem only_index_one_scores:
  "snd (update_ships walls sp1 sp2 0 [] ships []) =
     (if 1 < length ships \<and> so_hp (ships ! 1) \<le> 0 then [spawn_ship sp1, spawn_ship sp2] else []) \<and>
   length (eng_ships (update walls sp1 sp2 eng)) =
     length (filter (\<lambda>s. 0 < so_hp s) (eng_ships eng)) +
     (if 1 < length (eng_ships eng) \<and> so_hp (eng_ships eng ! 1) \<le> 0 then 2 else 0) \<and>
   fst (snd (hit_ships b 0 live sc hit)) =
     (if 1 < length live \<and> bullet_owner b \<noteq> 1 \<and> collides b (live ! 1) \<and> so_hp (live ! 1) - 10 \<le> 0
      then (fst sc + 10, snd sc) else sc) \<and>
   snd (eng_score (update walls sp1 sp2 eng)) = snd (eng_score eng) \<and>
   (fst (eng_score (update walls sp1 sp2 eng)) \<noteq> fst (eng_score eng) \<longrightarrow>
      1 < length (eng_ships (update walls sp1 sp2 eng)) \<and>
      so_hp (eng_ships (update walls sp1 sp2 eng) ! 1) \<le> 0 \<and>
      list_ex (\<lambda>b. bullet_owner b \<noteq> 1 \<and> collides b (eng_ships (update walls sp1 sp2 eng) ! 1))
        (map bullet_update (eng_bullets eng)))"
proof -
  define live1 where "live1 = ships_after_removal walls sp1 sp2 (eng_ships eng)"
  define moved where "moved = map bullet_update (eng_bullets eng)"
  note p = bullets_loop_props[of live1 walls moved "eng_score eng" "[]"]
  have es: "eng_ships (update walls sp1 sp2 eng) = fst (bullets_loop walls moved live1 (eng_score eng) [])"
    by (simp add: update_ships_eq live1_def moved_def)
  have sc: "eng_score (update walls sp1 sp2 eng) = fst (snd (bullets_loop walls moved live1 (eng_score eng) []))"
    by (simp add: update_score_eq live1_def moved_def)
  from p have w: "worn live1 (eng_ships (update walls sp1 sp2 eng))" by (simp add: es)
  have a: "snd (update_ships walls sp1 sp2 0 [] ships []) =
     (if 1 < length ships \<and> so_hp (ships ! 1) \<le> 0 then [spawn_ship sp1, spawn_ship sp2] else [])"
    using update_ships_new[of walls sp1 sp2 0 "[]" ships "[]"] by simp
  have b: "length (eng_ships (update walls sp1 sp2 eng)) =
     length (filter (\<lambda>s. 0 < so_hp s) (eng_ships eng)) +
     (if 1 < length (eng_ships eng) \<and> so_hp (eng_ships eng ! 1) \<le> 0 then 2 else 0)"
    using w ships_after_removal_length[of walls sp1 sp2 "eng_ships eng"]
    by (simp add: worn_def live1_def)
  have c: "fst (snd (hit_ships b 0 live sc hit)) =
     (if 1 < length live \<and> bullet_owner b \<noteq> 1 \<and> collides b (live ! 1) \<and> so_hp (live ! 1) - 10 \<le> 0
      then (fst sc + 10, snd sc) else sc)"
    using hit_ships_score[of b 0 live sc hit] by simp
  have d: "snd (eng_score (update walls sp1 sp2 eng)) = snd (eng_score eng)"
    using p by (simp add: sc)
  have e: "1 < length (eng_ships (update walls sp1 sp2 eng)) \<and>
      so_hp (eng_ships (update walls sp1 sp2 eng) ! 1) \<le> 0 \<and>
      list_ex (\<lambda>b. bullet_owner b \<noteq> 1 \<and> collides b (eng_ships (update walls sp1 sp2 eng) ! 1)) moved"
    if "fst (eng_score (update walls sp1 sp2 eng)) \<noteq> fst (eng_score eng)"
  proof -
    from that p have h: "1 < length live1" "so_hp (eng_ships (update walls sp1 sp2 eng) ! 1) \<le> 0"
      "\<exists>b\<in>set moved. bullet_owner b \<noteq> 1 \<and> collides b (live1 ! 1)"
      by (simp_all add: sc es)
    from h(3) collides_worn[OF w h(1)]
    have "\<exists>b\<in>set moved. bullet_owner b \<noteq> 1 \<and> collides b (eng_ships (update walls sp1 sp2 eng) ! 1)"
      by simp
    then have "list_ex (\<lambda>b. bullet_owner b \<noteq> 1 \<and> collides b (eng_ships (update walls sp1 sp2 eng) ! 1)) moved"
      by (simp add: list_ex_iff)
    with h(1,2) w show ?thesis by (simp add: worn_def)
  qed
  from a b c d e show ?thesis unfolding moved_def by blast
qed

text \<open>
  The theorem at work: the ships at index 1 and 2 dead (two replacements), only the
  ship at index 2 dead (none), a bullet killing the ship at index 1 (10 points), and a
  bullet killing the ship at index 2 (no points).
\<close>

theorem only_index_one_scores_witness:
  "length (eng_ships (update [] spawn0 spawn0
      \<lparr>eng_ships = [ship_at 400 400 100, ship_at 600 600 0, ship_at 800 800 0],
       eng_bullets = [], eng_score = (0, 0)\<rparr>)) = 3 \<and>
   length (eng_ships (update [] spawn0 spawn0
      \<lparr>eng_ships = [ship_at 400 400 100, ship_at 600 600 100, ship_at 800 800 0],
       eng_bullets = [], eng_score = (0, 0)\<rparr>)) = 2 \<and>
   eng_score (update [] spawn0 spawn0
      \<lparr>eng_ships = [ship_at 400 400 100, ship_at 600 600 10],
       eng_bullets = [bullet_at 585 600 0], eng_score = (0, 0)\<rparr>) = (10, 0) \<and>
   so_hp (eng_ships (update [] spawn0 spawn0
      \<lparr>eng_ships = [ship_at 400 400 100, ship_at 600 600 10],
       eng_bullets = [bullet_at 585 600 0], eng_score = (0, 0)\<rparr>) ! 1) \<le> 0 \<and>
   eng_score (update [] spawn0 spawn0
      \<lparr>eng_ships = [ship_at 400 400 100, ship_at 600 600 100, ship_at 800 800 10],
       eng_bullets = [bullet_at 785 800 0], eng_score = (0, 0)\<rparr>) = (0, 0)"
proof -
  define E1 where "E1 = \<lparr>eng_ships = [ship_at 400 400 100, ship_at 600 600 0, ship_at 800 800 0],
       eng_bullets = [], eng_score = (0, 0)\<rparr>"
  define E2 where "E2 = \<lparr>eng_ships = [ship_at 400 400 100, ship_at 600 600 100, ship_at 800 800 0],
       eng_bullets = [], eng_score = (0, 0)\<rparr>"
  define E3 where "E3 = \<lparr>eng_ships = [ship_at 400 400 100, ship_at 600 600 10],
       eng_bullets = [bullet_at 585 600 0], eng_score = (0, 0)\<rparr>"
  define E4 where "E4 = \<lparr>eng_ships = [ship_at 400 400 100, ship_at 600 600 100, ship_at 800 800 10],
       eng_bullets = [bullet_at 785 800 0], eng_score = (0, 0)\<rparr>"
  have l1: "length (eng_ships (update [] spawn0 spawn0 E1)) = 3"
    using only_index_one_scores[of "[]" spawn0 spawn0 "[]" E1]
    by (simp add: E1_def ship_at_def SpaceObject_def)
  have l2: "length (eng_ships (update [] spawn0 spawn0 E2)) = 2"
    using only_index_one_scores[of "[]" spawn0 spawn0 "[]" E2]
    by (simp add: E2_def ship_at_def SpaceObject_def)
  have s3: "eng_score (update [] spawn0 spawn0 E3) = (10, 0)"
    by (simp add: E3_def update_def ships_after_removal_def ship_at_def SpaceObject_def
        update_position_def check_wall_collision_def ship_box_def Rect_def py_int_def bounce_def
        colliderect_def bullet_at_def bullet_update_def collides_def bullet_hits_wall_def
        WORLD_WIDTH_def WORLD_HEIGHT_def Let_def)
  then have "fst (eng_score (update [] spawn0 spawn0 E3)) \<noteq> fst (eng_score E3)"
    by (simp add: E3_def)
  with only_index_one_scores[of "[]" spawn0 spawn0 "[]" E3]
  have h3: "so_hp (eng_ships (update [] spawn0 spawn0 E3) ! 1) \<le> 0" by blast
  have live4: "ships_after_removal [] spawn0 spawn0 (eng_ships E4) = eng_ships E4"
    by (simp add: E4_def ships_after_removal_def ship_at_def SpaceObject_def
        update_position_def check_wall_collision_def ship_box_def Rect_def py_int_def bounce_def
        colliderect_def WORLD_WIDTH_def WORLD_HEIGHT_def Let_def)
  have mv: "map bullet_update (eng_bullets E4) = [bullet_update (bullet_at 785 800 0)]"
    and sc4: "eng_score E4 = (0, 0)"
    by (simp_all add: E4_def)
  have nw: "bullet_hits_wall (bullet_update (bullet_at 785 800 0)) [] = False"
    by (simp add: bullet_hits_wall_def Let_def)
  have hit4: "fst (snd (hit_ships (bullet_update (bullet_at 785 800 0)) 0 (eng_ships E4) (0, 0) False)) = (0, 0)"
    using only_index_one_scores[of "[]" spawn0 spawn0 "[]" E4 "bullet_update (bullet_at 785 800 0)"
        "eng_ships E4" "(0, 0)" False]
    by (simp add: E4_def ship_at_def SpaceObject_def collides_iff bullet_update_def bullet_at_def)
  have s4: "eng_score (update [] spawn0 spawn0 E4) = (0, 0)"
    unfolding update_score_eq live4 mv sc4 bullets_loop_single nw by (rule hit4)
  from l1 l2 s3 h3 s4 show ?thesis unfolding E1_def E2_def E3_def E4_def by blast
qed

end
